theory Spec2Isabelle
  imports Main "HOL-Library.Sublist"
begin

section \<open>JavaScript strings\<close>

text \<open>
  The client is TypeScript. A JavaScript string is modelled by the list of the bytes of
  its UTF-8 encoding (\<open>string\<close>), so \<open>@\<close> is \<open>+\<close> on strings, \<open>[]\<close> is the
  empty (falsy) string and \<open>=\<close> is \<open>===\<close>. The string methods the client calls are
  modelled below with the meaning ECMAScript gives them. The argument of the decoder is the
  text of each read, that is the value of \<open>decoder.decode(value)\<close>.
\<close>

abbreviation NL :: char where "NL \<equiv> CHR 0x0A"
abbreviation DQ :: char where "DQ \<equiv> CHR 0x22"
abbreviation BSL :: char where "BSL \<equiv> CHR 0x5C"

text \<open>\<open>s.startsWith(p)\<close>, \<open>s.slice(n)\<close> (for \<open>0 \<le> n\<close>) is \<open>drop n s\<close>.\<close>

definition startsWith :: "string \<Rightarrow> string \<Rightarrow> bool" where
  "startsWith s p = (take (length p) s = p)"

definition endsWith :: "string \<Rightarrow> string \<Rightarrow> bool" where
  "endsWith s p = startsWith (rev s) (rev p)"

text \<open>\<open>s.includes(p)\<close>: \<open>p\<close> occurs in \<open>s\<close> as a contiguous substring.\<close>

fun includes_str :: "string \<Rightarrow> string \<Rightarrow> bool" where
  "includes_str [] p = (p = [])"
| "includes_str (c # cs) p = (startsWith (c # cs) p \<or> includes_str cs p)"

text \<open>\<open>s.split('\n')\<close>: the pieces between line feeds; never the empty array.\<close>

fun split_nl :: "string \<Rightarrow> string list" where
  "split_nl [] = [[]]"
| "split_nl (c # cs) =
     (if c = NL then [] # split_nl cs
      else (case split_nl cs of [] \<Rightarrow> [[c]] | l # ls \<Rightarrow> (c # l) # ls))"

text \<open>
  \<open>s.trim()\<close> removes the leading and trailing run of WhiteSpace and LineTerminator
  code points: U+0009..U+000D, U+0020, U+00A0, U+1680, U+2000..U+200A, U+2028, U+2029,
  U+202F, U+205F, U+3000 and U+FEFF, listed here by their UTF-8 encodings.
\<close>

definition white_space :: "string list" where
  "white_space =
    [[CHR 0x09], [CHR 0x0A], [CHR 0x0B], [CHR 0x0C], [CHR 0x0D], [CHR 0x20],
     [CHR 0xC2, CHR 0xA0], [CHR 0xE1, CHR 0x9A, CHR 0x80],
     [CHR 0xE2, CHR 0x80, CHR 0x80], [CHR 0xE2, CHR 0x80, CHR 0x81],
     [CHR 0xE2, CHR 0x80, CHR 0x82], [CHR 0xE2, CHR 0x80, CHR 0x83],
     [CHR 0xE2, CHR 0x80, CHR 0x84], [CHR 0xE2, CHR 0x80, CHR 0x85],
     [CHR 0xE2, CHR 0x80, CHR 0x86], [CHR 0xE2, CHR 0x80, CHR 0x87],
     [CHR 0xE2, CHR 0x80, CHR 0x88], [CHR 0xE2, CHR 0x80, CHR 0x89],
     [CHR 0xE2, CHR 0x80, CHR 0x8A], [CHR 0xE2, CHR 0x80, CHR 0xA8],
     [CHR 0xE2, CHR 0x80, CHR 0xA9], [CHR 0xE2, CHR 0x80, CHR 0xAF],
     [CHR 0xE2, CHR 0x81, CHR 0x9F], [CHR 0xE3, CHR 0x80, CHR 0x80],
     [CHR 0xEF, CHR 0xBB, CHR 0xBF]]"

definition leading_ws :: "string \<Rightarrow> bool" where
  "leading_ws s = list_ex (\<lambda>w. startsWith s w) white_space"

definition trailing_ws :: "string \<Rightarrow> bool" where
  "trailing_ws s = list_ex (\<lambda>w. endsWith s w) white_space"

fun strip :: "string list \<Rightarrow> string \<Rightarrow> string" where
  "strip ws [] = []"
| "strip ws (c # cs) =
     (case find (\<lambda>w. w \<noteq> [] \<and> startsWith (c # cs) w) ws of
        None \<Rightarrow> c # cs
      | Some w \<Rightarrow> strip ws (drop (length w - 1) cs))"

definition trimStart :: "string \<Rightarrow> string" where
  "trimStart s = strip white_space s"

definition trimEnd :: "string \<Rightarrow> string" where
  "trimEnd s = rev (strip (map rev white_space) (rev s))"

definition trim :: "string \<Rightarrow> string" where
  "trim s = trimEnd (trimStart s)"


section \<open>JSON values and \<open>JSON.parse\<close>\<close>

text \<open>
  The values \<open>JSON.parse\<close> returns. A number is kept as the decimal the text wrote,
  \<open>JNum neg m e\<close> standing for \<open>(-1)^neg * m * 10^e\<close>; an object keeps its members
  in the order of the text.
\<close>

datatype json =
    JNull
  | JBool bool
  | JNum bool nat int
  | JStr string
  | JArr "json list"
  | JObj "(string \<times> json) list"

datatype js_exn = SyntaxError | TypeError

text \<open>
  ToBoolean. A number is falsy when the double it denotes is \<open>+0\<close> or \<open>-0\<close>: the
  decimal is zero, or it is at most \<open>2^-1075\<close>, half the least subnormal, and rounds to
  zero.
\<close>

definition rounds_to_zero :: "nat \<Rightarrow> int \<Rightarrow> bool" where
  "rounds_to_zero m e = (m = 0 \<or> (e < 0 \<and> m * 2 ^ 1075 \<le> 10 ^ nat (- e)))"

fun truthy :: "json \<Rightarrow> bool" where
  "truthy JNull = False"
| "truthy (JBool b) = b"
| "truthy (JNum neg m e) = (\<not> rounds_to_zero m e)"
| "truthy (JStr s) = (s \<noteq> [])"
| "truthy (JArr vs) = True"
| "truthy (JObj kvs) = True"

text \<open>
  \<open>data.key\<close> for a value \<open>data\<close> that \<open>JSON.parse\<close> returned: a TypeError on
  \<open>null\<close>; the member written last under that key for an object; \<open>undefined\<close>
  (\<open>None\<close>) for an object without the key and for a boolean, a number, a string or an
  array (none of the keys the client reads is a property of their prototypes).
\<close>

fun get_prop :: "json \<Rightarrow> string \<Rightarrow> js_exn + json option" where
  "get_prop JNull k = Inl TypeError"
| "get_prop (JObj kvs) k = Inr (map_of (rev kvs) k)"
| "get_prop v k = Inr None"

text \<open>ToBoolean of a property read: \<open>undefined\<close> is falsy.\<close>

fun truthy_opt :: "json option \<Rightarrow> bool" where
  "truthy_opt None = False"
| "truthy_opt (Some v) = truthy v"

subsection \<open>Tokens\<close>

datatype token =
  TLBrace | TRBrace | TLBracket | TRBracket | TColon | TComma | TVal json

definition is_digit :: "char \<Rightarrow> bool" where
  "is_digit c = (48 \<le> (of_char c :: nat) \<and> (of_char c :: nat) \<le> 57)"

definition digit_val :: "char \<Rightarrow> nat" where
  "digit_val c = of_char c - 48"

definition digits_val :: "string \<Rightarrow> nat" where
  "digits_val ds = foldl (\<lambda>n d. 10 * n + digit_val d) 0 ds"

text \<open>
  A number: \<open>-? (0 | [1-9][0-9]*) (. [0-9]+)? ([eE] [+-]? [0-9]+)?\<close>, the whole of the
  text given.
\<close>

definition number_of :: "string \<Rightarrow> json option" where
  "number_of s =
    (let neg = (s \<noteq> [] \<and> hd s = CHR ''-'');
         s1 = (if neg then tl s else s);
         ip = takeWhile is_digit s1;
         s2 = dropWhile is_digit s1;
         has_frac = (s2 \<noteq> [] \<and> hd s2 = CHR ''.'');
         fp = (if has_frac then takeWhile is_digit (tl s2) else []);
         s3 = (if has_frac then dropWhile is_digit (tl s2) else s2);
         has_exp = (s3 \<noteq> [] \<and> (hd s3 = CHR ''e'' \<or> hd s3 = CHR ''E''));
         s4 = (if has_exp then tl s3 else s3);
         eneg = (has_exp \<and> s4 \<noteq> [] \<and> hd s4 = CHR ''-'');
         s5 = (if has_exp \<and> s4 \<noteq> [] \<and> (hd s4 = CHR ''-'' \<or> hd s4 = CHR ''+'')
               then tl s4 else s4);
         ep = (if has_exp then takeWhile is_digit s5 else []);
         s6 = (if has_exp then dropWhile is_digit s5 else s5)
     in if ip = [] \<or> (1 < length ip \<and> hd ip = CHR ''0'') then None
        else if has_frac \<and> fp = [] then None
        else if has_exp \<and> ep = [] then None
        else if s6 \<noteq> [] then None
        else Some (JNum neg (digits_val (ip @ fp))
               ((if eneg then - int (digits_val ep) else int (digits_val ep))
                 - int (length fp))))"

text \<open>
  A string: the text between the quotes, with no control character and with the escapes
  \<open>\" \\ \/ \b \f \n \r \t \uXXXX\<close>. An escape \<open>\uXXXX\<close> is a UTF-16 code unit; a
  surrogate pair of escapes is one code point.
\<close>

datatype sitem = Raw char | Esc nat

definition hex_val :: "char \<Rightarrow> nat option" where
  "hex_val c =
    (let n = (of_char c :: nat) in
     if 48 \<le> n \<and> n \<le> 57 then Some (n - 48)
     else if 65 \<le> n \<and> n \<le> 70 then Some (n - 55)
     else if 97 \<le> n \<and> n \<le> 102 then Some (n - 87)
     else None)"

definition hex4 :: "char \<Rightarrow> char \<Rightarrow> char \<Rightarrow> char \<Rightarrow> nat option" where
  "hex4 a b c d =
    (case (hex_val a, hex_val b, hex_val c, hex_val d) of
       (Some x, Some y, Some z, Some w) \<Rightarrow> Some (((x * 16 + y) * 16 + z) * 16 + w)
     | _ \<Rightarrow> None)"

definition simple_escape :: "char \<Rightarrow> char option" where
  "simple_escape e =
    (if e = DQ then Some DQ
     else if e = BSL then Some BSL
     else if e = CHR ''/'' then Some (CHR ''/'')
     else if e = CHR ''b'' then Some (CHR 0x08)
     else if e = CHR ''f'' then Some (CHR 0x0C)
     else if e = CHR ''n'' then Some NL
     else if e = CHR ''r'' then Some (CHR 0x0D)
     else if e = CHR ''t'' then Some (CHR 0x09)
     else None)"

fun string_end :: "string \<Rightarrow> nat option" where
  "string_end [] = None"
| "string_end (c # cs) =
     (if c = DQ then Some 0
      else if c = BSL then
        (case cs of [] \<Rightarrow> None | e # cs' \<Rightarrow> map_option (\<lambda>n. n + 2) (string_end cs'))
      else map_option Suc (string_end cs))"

fun unescape :: "string \<Rightarrow> sitem list option" where
  "unescape [] = Some []"
| "unescape (c # cs) =
     (if c = BSL then
        (case cs of
           [] \<Rightarrow> None
         | e # cs' \<Rightarrow>
             (if e = CHR ''u'' then
                (case cs' of
                   a # b # c # d # cs'' \<Rightarrow>
                     (case hex4 a b c d of
                        None \<Rightarrow> None
                      | Some v \<Rightarrow> map_option (Cons (Esc v)) (unescape cs''))
                 | _ \<Rightarrow> None)
              else
                (case simple_escape e of
                   None \<Rightarrow> None
                 | Some x \<Rightarrow> map_option (Cons (Raw x)) (unescape cs'))))
      else if (of_char c :: nat) < 32 then None
      else map_option (Cons (Raw c)) (unescape cs))"

definition utf8_encode :: "nat \<Rightarrow> string" where
  "utf8_encode cp =
    (if cp < 0x80 then [char_of cp]
     else if cp < 0x800 then [char_of (0xC0 + cp div 64), char_of (0x80 + cp mod 64)]
     else if cp < 0x10000 then
       [char_of (0xE0 + cp div 4096), char_of (0x80 + cp div 64 mod 64),
        char_of (0x80 + cp mod 64)]
     else
       [char_of (0xF0 + cp div 262144), char_of (0x80 + cp div 4096 mod 64),
        char_of (0x80 + cp div 64 mod 64), char_of (0x80 + cp mod 64)])"

fun utf8_of_items :: "sitem list \<Rightarrow> string" where
  "utf8_of_items [] = []"
| "utf8_of_items (Raw c # r) = c # utf8_of_items r"
| "utf8_of_items (Esc hi # Esc lo # r) =
     (if 0xD800 \<le> hi \<and> hi < 0xDC00 \<and> 0xDC00 \<le> lo \<and> lo < 0xE000
      then utf8_encode (0x10000 + (hi - 0xD800) * 0x400 + (lo - 0xDC00)) @ utf8_of_items r
      else utf8_encode hi @ utf8_of_items (Esc lo # r))"
| "utf8_of_items (Esc v # r) = utf8_encode v @ utf8_of_items r"

definition is_json_ws :: "char \<Rightarrow> bool" where
  "is_json_ws c = (c = CHR 0x20 \<or> c = CHR 0x09 \<or> c = NL \<or> c = CHR 0x0D)"

definition is_num_char :: "char \<Rightarrow> bool" where
  "is_num_char c =
    (is_digit c \<or> c = CHR ''-'' \<or> c = CHR ''+'' \<or> c = CHR ''.''
      \<or> c = CHR ''e'' \<or> c = CHR ''E'')"

definition is_lower :: "char \<Rightarrow> bool" where
  "is_lower c = (97 \<le> (of_char c :: nat) \<and> (of_char c :: nat) \<le> 122)"

definition literal_of :: "string \<Rightarrow> json option" where
  "literal_of w =
    (if w = ''true'' then Some (JBool True)
     else if w = ''false'' then Some (JBool False)
     else if w = ''null'' then Some JNull
     else None)"

text \<open>
  The tokens of a text. A number and a literal are read greedily: in a JSON text neither
  is followed by a character that could continue it.
\<close>

function lex :: "string \<Rightarrow> token list option" where
  "lex [] = Some []"
| "lex (c # cs) =
     (if is_json_ws c then lex cs
      else if c = CHR ''{'' then map_option (Cons TLBrace) (lex cs)
      else if c = CHR ''}'' then map_option (Cons TRBrace) (lex cs)
      else if c = CHR ''['' then map_option (Cons TLBracket) (lex cs)
      else if c = CHR '']'' then map_option (Cons TRBracket) (lex cs)
      else if c = CHR '':'' then map_option (Cons TColon) (lex cs)
      else if c = CHR '','' then map_option (Cons TComma) (lex cs)
      else if c = DQ then
        (case string_end cs of
           None \<Rightarrow> None
         | Some n \<Rightarrow>
             (case unescape (take n cs) of
                None \<Rightarrow> None
              | Some items \<Rightarrow>
                  map_option (Cons (TVal (JStr (utf8_of_items items))))
                    (lex (drop (Suc n) cs))))
      else if is_num_char c then
        (case number_of (c # takeWhile is_num_char cs) of
           None \<Rightarrow> None
         | Some v \<Rightarrow> map_option (Cons (TVal v)) (lex (dropWhile is_num_char cs)))
      else if is_lower c then
        (case literal_of (c # takeWhile is_lower cs) of
           None \<Rightarrow> None
         | Some v \<Rightarrow> map_option (Cons (TVal v)) (lex (dropWhile is_lower cs)))
      else None)"
  by pat_completeness auto
termination
  by (relation "measure length") (auto simp: less_Suc_eq_le length_dropWhile_le)

subsection \<open>The grammar\<close>

text \<open>
  A pushdown recogniser over the tokens: the stack holds the arrays and objects that are
  open, with the members read so far (and, for an object, the key that awaits its value).
\<close>

datatype frame = InArr "json list" | InObj "(string \<times> json) list" string

datatype pmode =
  WantValue | WantValueOrClose | WantKey | WantKeyOrClose | WantColon | AfterValue
  | Finished json

fun put_value :: "json \<Rightarrow> frame list \<Rightarrow> frame list \<times> pmode" where
  "put_value v [] = ([], Finished v)"
| "put_value v (InArr vs # st) = (InArr (vs @ [v]) # st, AfterValue)"
| "put_value v (InObj kvs k # st) = (InObj (kvs @ [(k, v)]) k # st, AfterValue)"

fun close_array :: "frame list \<Rightarrow> (frame list \<times> pmode) option" where
  "close_array (InArr vs # st) = Some (put_value (JArr vs) st)"
| "close_array st = None"

fun close_object :: "frame list \<Rightarrow> (frame list \<times> pmode) option" where
  "close_object (InObj kvs k # st) = Some (put_value (JObj kvs) st)"
| "close_object st = None"

fun start_value :: "frame list \<Rightarrow> token \<Rightarrow> (frame list \<times> pmode) option" where
  "start_value st (TVal v) = Some (put_value v st)"
| "start_value st TLBracket = Some (InArr [] # st, WantValueOrClose)"
| "start_value st TLBrace = Some (InObj [] [] # st, WantKeyOrClose)"
| "start_value st t = None"

fun take_key :: "frame list \<Rightarrow> token \<Rightarrow> (frame list \<times> pmode) option" where
  "take_key (InObj kvs k0 # st) (TVal (JStr k)) = Some (InObj kvs k # st, WantColon)"
| "take_key st t = None"

fun pstep :: "frame list \<times> pmode \<Rightarrow> token \<Rightarrow> (frame list \<times> pmode) option" where
  "pstep (st, WantValue) t = start_value st t"
| "pstep (st, WantValueOrClose) t =
     (if t = TRBracket then close_array st else start_value st t)"
| "pstep (st, WantKey) t = take_key st t"
| "pstep (st, WantKeyOrClose) t =
     (if t = TRBrace then close_object st else take_key st t)"
| "pstep (st, WantColon) t = (if t = TColon then Some (st, WantValue) else None)"
| "pstep (st, AfterValue) t =
     (if t = TRBracket then close_array st
      else if t = TRBrace then close_object st
      else if t = TComma then
        (case st of
           InArr vs # st' \<Rightarrow> Some (st, WantValue)
         | InObj kvs k # st' \<Rightarrow> Some (st, WantKey)
         | [] \<Rightarrow> None)
      else None)"
| "pstep (st, Finished v) t = None"

fun psteps :: "frame list \<times> pmode \<Rightarrow> token list \<Rightarrow> (frame list \<times> pmode) option" where
  "psteps s [] = Some s"
| "psteps s (t # ts) = (case pstep s t of None \<Rightarrow> None | Some s' \<Rightarrow> psteps s' ts)"

text \<open>\<open>JSON.parse(text)\<close>: the value, or the SyntaxError it throws.\<close>

definition JSON_parse :: "string \<Rightarrow> js_exn + json" where
  "JSON_parse text =
    (case lex text of
       None \<Rightarrow> Inl SyntaxError
     | Some ts \<Rightarrow>
         (case psteps ([], WantValue) ts of
            Some ([], Finished v) \<Rightarrow> Inr v
          | _ \<Rightarrow> Inl SyntaxError))"


section \<open>The stream decoder: \<open>askQuestionStream\<close>\<close>

text \<open>
  What the decoder does to the outside, in the order it does it: a call of one of the three
  handlers the caller passed, or a line on \<open>console.error\<close>. A handler's argument is a
  JavaScript value: \<open>None\<close> is \<open>undefined\<close>. The handlers are the caller's and are
  taken not to throw (were one to throw inside the \<open>try\<close> block, the \<open>catch\<close> would
  log it and the loop would go on, with the same invocations).
\<close>

type_synonym jsval = "json option"

datatype effect =
    OnChunk jsval
  | OnComplete jsval jsval
  | OnError jsval
  | ConsoleError

definition then_do :: "js_exn + 'a \<Rightarrow> ('a \<Rightarrow> js_exn + 'b) \<Rightarrow> js_exn + 'b" where
  "then_do r f = (case r of Inl e \<Rightarrow> Inl e | Inr x \<Rightarrow> f x)"

text \<open>\<open>a && data.key\<close> as a condition: the property is read only when \<open>a\<close> holds.\<close>

definition and_prop :: "bool \<Rightarrow> json \<Rightarrow> string \<Rightarrow> js_exn + bool" where
  "and_prop a data k =
    (if a then then_do (get_prop data k) (\<lambda>v. Inr (truthy_opt v)) else Inr False)"

text \<open>The \<open>if\<close> / \<open>else if\<close> chain on the parsed payload.\<close>

definition dispatch :: "string \<Rightarrow> json \<Rightarrow> js_exn + effect list" where
  "dispatch currentEvent data =
    then_do (and_prop (currentEvent = ''answer_chunk'') data ''chunk'') (\<lambda>c1.
      if c1 then
        then_do (get_prop data ''chunk'') (\<lambda>chunk. Inr [OnChunk chunk])
      else
        then_do (and_prop (currentEvent = ''answer_complete'') data ''sources'') (\<lambda>c2.
          if c2 then
            then_do (get_prop data ''sources'') (\<lambda>sources.
            then_do (get_prop data ''session_id'') (\<lambda>session_id.
              Inr [OnComplete sources session_id]))
          else if currentEvent = ''error'' then
            then_do (get_prop data ''error'') (\<lambda>err.
              Inr [OnError (if truthy_opt err then err else Some (JStr ''Unknown error''))])
          else Inr []))"

text \<open>The \<open>try\<close> block with its \<open>catch\<close>, which logs and goes on.\<close>

definition try_parse :: "string \<Rightarrow> string \<Rightarrow> effect list" where
  "try_parse currentEvent currentData =
    (case then_do (JSON_parse currentData) (dispatch currentEvent) of
       Inl e \<Rightarrow> [ConsoleError]
     | Inr out \<Rightarrow> out)"

text \<open>One turn of \<open>for (const line of lines)\<close> on \<open>(currentEvent, currentData)\<close>.\<close>

definition process_line :: "string \<times> string \<Rightarrow> string \<Rightarrow> (string \<times> string) \<times> effect list" where
  "process_line st line =
    (case st of (currentEvent, currentData) \<Rightarrow>
       if startsWith line ''event: '' then ((trim (drop 7 line), currentData), [])
       else if startsWith line ''data: '' then
         (let currentData' = trim (drop 6 line) in
          ((currentEvent, currentData'),
           if currentData' \<noteq> [] \<and> currentEvent \<noteq> []
           then try_parse currentEvent currentData' else []))
       else (st, []))"

fun process_lines :: "string \<times> string \<Rightarrow> string list \<Rightarrow> effect list" where
  "process_lines st [] = []"
| "process_lines st (line # lines) =
     (case process_line st line of (st', out) \<Rightarrow> out @ process_lines st' lines)"

text \<open>
  The body of \<open>while (true)\<close> after a read that was not \<open>done\<close>: the text of the read is
  split, \<open>currentEvent\<close> and \<open>currentData\<close> start empty, the lines are processed.
\<close>

definition decode_read :: "string \<Rightarrow> effect list" where
  "decode_read chunk = process_lines ([], []) (split_nl chunk)"

text \<open>
  The environment. A value thrown is an \<open>Error\<close> with a name and a message, or something
  that is not an \<open>Error\<close>. The body is the list of what the successive calls of
  \<open>reader.read()\<close> settle to; past the end of the list a read stays pending. An abort of
  the request's signal shows as a rejection named \<open>AbortError\<close>, of \<open>fetch\<close> or of the
  pending read.
\<close>

datatype thrown = ErrorObj string string | NotAnError

datatype read_result = Value string | Done | Rejected thrown

datatype loop_exit = Break | Stalled | Throw thrown

fun read_loop :: "read_result list \<Rightarrow> effect list \<times> loop_exit" where
  "read_loop [] = ([], Stalled)"
| "read_loop (Value chunk # rs) =
     (case read_loop rs of (out, x) \<Rightarrow> (decode_read chunk @ out, x))"
| "read_loop (Done # rs) = ([], Break)"
| "read_loop (Rejected e # rs) = ([], Throw e)"

definition catch_block :: "thrown \<Rightarrow> effect list" where
  "catch_block error =
    (case error of
       ErrorObj name message \<Rightarrow>
         if name = ''AbortError'' then [OnError (Some (JStr ''Request cancelled''))]
         else [OnError (Some (JStr message))]
     | NotAnError \<Rightarrow> [OnError (Some (JStr ''Unknown error''))])"

fun show_nat :: "nat \<Rightarrow> string" where
  "show_nat n =
     (if n < 10 then [char_of (48 + n)] else show_nat (n div 10) @ [char_of (48 + n mod 10)])"

text \<open>
  What \<open>await fetch(...)\<close> gives: a rejection, or a response with \<open>ok\<close>, \<open>status\<close>
  and \<open>body\<close>. The request and the handlers are left out of the arguments of
  \<open>askQuestionStream\<close>: the request acts through what \<open>fetch\<close> gives, and the result
  lists the handler calls in their order.
\<close>

datatype fetch_result = FetchRejected thrown | Response bool nat "read_result list option"

definition askQuestionStream :: "fetch_result \<Rightarrow> effect list" where
  "askQuestionStream r =
    (case r of
       FetchRejected e \<Rightarrow> catch_block e
     | Response ok status body \<Rightarrow>
         if \<not> ok then catch_block (ErrorObj ''Error'' (''HTTP error! status: '' @ show_nat status))
         else
           (case body of
              None \<Rightarrow> catch_block (ErrorObj ''Error'' ''No response body'')
            | Some rs \<Rightarrow>
                (case read_loop rs of
                   (out, Throw e) \<Rightarrow> out @ catch_block e
                 | (out, x) \<Rightarrow> out)))"

text \<open>The handler invocations among the effects, and the terminal ones among those.\<close>

fun is_handler_call :: "effect \<Rightarrow> bool" where
  "is_handler_call ConsoleError = False"
| "is_handler_call e = True"

definition handler_calls :: "effect list \<Rightarrow> effect list" where
  "handler_calls out = filter is_handler_call out"

fun is_terminal :: "effect \<Rightarrow> bool" where
  "is_terminal (OnComplete s i) = True"
| "is_terminal (OnError m) = True"
| "is_terminal e = False"

text \<open>
  The state \<open>(currentEvent, currentData)\<close> after the lines of a list, for stating what
  the loop carries from one line to the next.
\<close>

fun end_state :: "string \<times> string \<Rightarrow> string list \<Rightarrow> string \<times> string" where
  "end_state st [] = st"
| "end_state st (line # lines) = end_state (fst (process_line st line)) lines"


section \<open>The chat page: \<open>ChatPage\<close> and \<open>ChatInput\<close>\<close>

text \<open>
  The page's \<open>ChatMessage\<close> (fields \<open>id\<close>, \<open>message\<close>, \<open>isUser\<close>, \<open>timestamp\<close>,
  \<open>sources?\<close>, \<open>isStreaming?\<close>; an absent optional field is \<open>None\<close>) and the API's
  \<open>ChatMessage\<close> (\<open>role\<close>, \<open>content\<close>, \<open>timestamp\<close>), here \<open>chat_turn\<close>.
\<close>

record chat_message =
  msg_id :: string
  message :: string
  isUser :: bool
  timestamp :: string
  sources :: jsval
  msg_isStreaming :: "bool option"

datatype role = User | Assistant

record chat_turn =
  role :: role
  content :: string
  turn_timestamp :: string

record ask_request =
  question :: string
  session_id :: string
  chat_history :: "chat_turn list"

text \<open>
  The state of the page: the five \<open>useState\<close> cells, and \<open>aborted\<close>, the controllers
  on which \<open>abort()\<close> has been called. A controller is named by a string.
\<close>

record page =
  messages :: "chat_message list"
  sessionId :: string
  isStreaming :: bool
  currentStreamingMessage :: string
  abortController :: "string option"
  aborted :: "string set"

text \<open>
  What the environment hands to one \<open>handleSendMessage\<close>: the two \<open>crypto.randomUUID()\<close>,
  the two \<open>new Date().toISOString()\<close> and the \<open>new AbortController()\<close>.
\<close>

record fresh =
  userMessageId :: string
  userNow :: string
  controller :: string
  tempMessageId :: string
  tempNow :: string

text \<open>The history built in \<open>handleStreamingResponse\<close> from the \<open>messages\<close> it closes over.\<close>

definition chatHistory :: "chat_message list \<Rightarrow> chat_turn list" where
  "chatHistory msgs =
    map (\<lambda>msg. \<lparr>role = (if isUser msg then User else Assistant),
               content = message msg,
               turn_timestamp = timestamp msg\<rparr>)
      (filter (\<lambda>msg.
          let isError = includes_str (message msg) ''Sorry, I encountered an error''
                \<or> includes_str (message msg) ''Generation cancelled by user''
          in \<not> isError) msgs)"

text \<open>
  \<open>handleStreamingResponse\<close> up to its call of \<open>askQuestionStream\<close>: the new state and the
  request it sends. \<open>snap\<close> is the state of the render the handler closes over (it reads
  \<open>messages\<close> and \<open>sessionId\<close> there); the updates apply to the current state \<open>s\<close>.
  \<open>askQuestionStream\<close> catches what it throws, so the \<open>catch\<close> around the call is
  reached by no path and has no part here.
\<close>

definition handleStreamingResponse ::
  "page \<Rightarrow> string \<Rightarrow> fresh \<Rightarrow> page \<Rightarrow> page \<times> ask_request" where
  "handleStreamingResponse snap q env s =
    (s\<lparr>isStreaming := True,
       currentStreamingMessage := [],
       abortController := Some (controller env),
       messages := messages s @
         [\<lparr>msg_id = tempMessageId env, message = [], isUser = False,
           timestamp = tempNow env, sources = None, msg_isStreaming = Some True\<rparr>]\<rparr>,
     \<lparr>question = q, session_id = sessionId snap,
      chat_history = chatHistory (messages snap)\<rparr>)"

definition handleSendMessage ::
  "page \<Rightarrow> string \<Rightarrow> fresh \<Rightarrow> page \<Rightarrow> page \<times> ask_request" where
  "handleSendMessage snap msg env s =
    handleStreamingResponse snap msg env
      (s\<lparr>messages := messages s @
         [\<lparr>msg_id = userMessageId env, message = msg, isUser = True,
           timestamp = userNow env, sources = None, msg_isStreaming = None\<rparr>]\<rparr>)"

text \<open>
  The three handlers \<open>handleStreamingResponse\<close> passes, each closing over its
  \<open>tempMessageId\<close>. In \<open>onChunk\<close>, \<open>prev.find(...)?.message + chunk || chunk\<close> reads
  \<open>(prev.find(...)?.message + chunk) || chunk\<close>.
\<close>

definition onChunk :: "string \<Rightarrow> string \<Rightarrow> page \<Rightarrow> page" where
  "onChunk tid chunk s =
    s\<lparr>currentStreamingMessage := currentStreamingMessage s @ chunk,
      messages :=
        map (\<lambda>msg.
          if msg_id msg = tid then
            msg\<lparr>message :=
              (let m = (case find (\<lambda>m. msg_id m = tid) (messages s) of
                          Some m \<Rightarrow> message m
                        | None \<Rightarrow> ''undefined'') @ chunk
               in if m \<noteq> [] then m else chunk)\<rparr>
          else msg) (messages s)\<rparr>"

definition onComplete :: "string \<Rightarrow> jsval \<Rightarrow> jsval \<Rightarrow> page \<Rightarrow> page" where
  "onComplete tid srcs sid s =
    s\<lparr>messages :=
        map (\<lambda>msg.
          if msg_id msg = tid then msg\<lparr>sources := srcs, msg_isStreaming := Some False\<rparr>
          else msg) (messages s),
      isStreaming := False,
      currentStreamingMessage := [],
      abortController := None\<rparr>"

definition onError :: "string \<Rightarrow> string \<Rightarrow> page \<Rightarrow> page" where
  "onError tid error s =
    (let isCancellation = (error = ''Request cancelled'' \<or> includes_str error ''cancelled''
            \<or> includes_str error ''aborted'')
     in s\<lparr>messages :=
            map (\<lambda>msg.
              if msg_id msg = tid then
                msg\<lparr>message :=
                      (if isCancellation then ''Generation cancelled by user.''
                       else ''Sorry, I encountered an error while processing your question. Please try again.''),
                    msg_isStreaming := Some False\<rparr>
              else msg) (messages s),
          isStreaming := False,
          currentStreamingMessage := [],
          abortController := None\<rparr>)"

text \<open>
  \<open>handleStopGeneration\<close>: \<open>snap\<close> is the render it closes over (it reads
  \<open>abortController\<close> there).
\<close>

definition handleStopGeneration :: "page \<Rightarrow> page \<Rightarrow> page" where
  "handleStopGeneration snap s =
    (case abortController snap of
       None \<Rightarrow> s
     | Some c \<Rightarrow>
         s\<lparr>aborted := insert c (aborted s),
           isStreaming := False,
           currentStreamingMessage := [],
           abortController := None,
           messages :=
             map (\<lambda>msg.
               if msg_isStreaming msg = Some True then
                 msg\<lparr>message := message msg @ [NL, NL] @ ''Generation cancelled by user.'',
                     msg_isStreaming := Some False\<rparr>
               else msg) (messages s)\<rparr>)"

text \<open>
  \<open>ChatInput.handleSubmit\<close> on the textarea's \<open>message\<close> and the props: the argument of
  \<open>onSendMessage\<close> when it is called, and the textarea afterwards.
\<close>

definition handleSubmit :: "string \<Rightarrow> bool \<Rightarrow> bool \<Rightarrow> string option \<times> string" where
  "handleSubmit msg isLoading disabled =
    (if trim msg \<noteq> [] \<and> \<not> isLoading \<and> \<not> disabled then (Some (trim msg), [])
     else (None, msg))"

subsection \<open>The decoder's calls as the page receives them\<close>

text \<open>
  A call of one of the three handlers with an argument of the type the handler declares
  (\<open>chunk: string\<close>, \<open>sources: any[]\<close>, \<open>error: string\<close>). \<open>typed_calls\<close> reads the
  calls off the decoder's effects; it is \<open>None\<close> when a payload is not of the declared
  type, which the page's handlers are not modelled for.
\<close>

datatype handler_call = Chunk string | Complete jsval jsval | Failed string

fun typed_calls :: "effect list \<Rightarrow> handler_call list option" where
  "typed_calls [] = Some []"
| "typed_calls (ConsoleError # out) = typed_calls out"
| "typed_calls (OnChunk (Some (JStr c)) # out) = map_option (Cons (Chunk c)) (typed_calls out)"
| "typed_calls (OnComplete srcs sid # out) =
     map_option (Cons (Complete srcs sid)) (typed_calls out)"
| "typed_calls (OnError (Some (JStr e)) # out) = map_option (Cons (Failed e)) (typed_calls out)"
| "typed_calls (x # out) = None"

fun callback :: "string \<Rightarrow> handler_call \<Rightarrow> page \<Rightarrow> page" where
  "callback tid (Chunk c) s = onChunk tid c s"
| "callback tid (Complete srcs sid) s = onComplete tid srcs sid s"
| "callback tid (Failed e) s = onError tid e s"

definition callbacks :: "string \<Rightarrow> handler_call list \<Rightarrow> page \<Rightarrow> page" where
  "callbacks tid cs s = foldl (\<lambda>s c. callback tid c s) s cs"

subsection \<open>The page as a transition system\<close>

text \<open>
  The events of a page: a submit of the form with the textarea's text, a click on Stop
  (the button is rendered only while \<open>isStreaming\<close>), and a call of a handler by the
  \<open>askQuestionStream\<close> of the request whose temporary message has the given id. The page is
  rendered between two events, so a handler closes over the current state. Beside the page
  the system keeps, for the statement of the claims only, the requests in flight: those
  started whose \<open>onComplete\<close> or \<open>onError\<close> has not been called and that Stop has not
  aborted, each as (controller, temporary id).
\<close>

datatype event = Submit string fresh | Stop | Call string handler_call

fun is_terminal_call :: "handler_call \<Rightarrow> bool" where
  "is_terminal_call (Chunk c) = False"
| "is_terminal_call (Complete srcs sid) = True"
| "is_terminal_call (Failed e) = True"

fun step :: "event \<Rightarrow> page \<times> (string \<times> string) list \<Rightarrow> page \<times> (string \<times> string) list" where
  "step (Submit text env) (s, fl) =
     (case fst (handleSubmit text (isStreaming s) (isStreaming s)) of
        None \<Rightarrow> (s, fl)
      | Some q \<Rightarrow> (fst (handleSendMessage s q env s), fl @ [(controller env, tempMessageId env)]))"
| "step Stop (s, fl) =
     (if isStreaming s then
        (handleStopGeneration s s,
         (case abortController s of None \<Rightarrow> fl | Some c \<Rightarrow> filter (\<lambda>r. fst r \<noteq> c) fl))
      else (s, fl))"
| "step (Call tid c) (s, fl) =
     (callback tid c s, if is_terminal_call c then filter (\<lambda>r. snd r \<noteq> tid) fl else fl)"

definition run :: "event list \<Rightarrow> page \<times> (string \<times> string) list \<Rightarrow> page \<times> (string \<times> string) list" where
  "run es st = foldl (\<lambda>st e. step e st) st es"

text \<open>The page when it mounts (before the effect that draws the session id).\<close>

definition initial :: "page \<times> (string \<times> string) list" where
  "initial =
    (\<lparr>messages = [], sessionId = [], isStreaming = False, currentStreamingMessage = [],
      abortController = None, aborted = {}\<rparr>, [])"

text \<open>
  A run in which no request calls \<open>onComplete\<close> or \<open>onError\<close> while another request is
  in flight.
\<close>

fun no_stale_terminal :: "event list \<Rightarrow> page \<times> (string \<times> string) list \<Rightarrow> bool" where
  "no_stale_terminal [] st = True"
| "no_stale_terminal (e # es) st =
     ((case e of
         Call tid c \<Rightarrow> is_terminal_call c \<longrightarrow> list_all (\<lambda>r. snd r = tid) (snd st)
       | _ \<Rightarrow> True)
      \<and> no_stale_terminal es (step e st))"


text \<open>
  The page after the decoder's calls have reached the handlers of the request with
  temporary id \<open>tid\<close>.
\<close>

definition deliver :: "string \<Rightarrow> effect list \<Rightarrow> page \<Rightarrow> page option" where
  "deliver tid out s = map_option (\<lambda>cs. callbacks tid cs s) (typed_calls out)"

subsection \<open>Predicates of the properties\<close>

text \<open>At most one terminal call, and no call after it.\<close>

fun terminal_last :: "effect list \<Rightarrow> bool" where
  "terminal_last [] = True"
| "terminal_last (c # cs) = (if is_terminal c then cs = [] else terminal_last cs)"

text \<open>The chunk of an \<open>onChunk\<close> and the sources of an \<open>onComplete\<close> are truthy.\<close>

fun truthy_payload :: "effect \<Rightarrow> bool" where
  "truthy_payload (OnChunk c) = truthy_opt c"
| "truthy_payload (OnComplete srcs sid) = truthy_opt srcs"
| "truthy_payload e = True"

text \<open>The calls of \<open>onChunk\<close>.\<close>

fun is_chunk :: "effect \<Rightarrow> bool" where
  "is_chunk (OnChunk c) = True"
| "is_chunk e = False"

text \<open>
  What the proof of the bound carries along a run: at most one request is in flight, and
  while one is, the page is streaming and holds that request's controller.
\<close>

definition in_flight_inv :: "page \<times> (string \<times> string) list \<Rightarrow> bool" where
  "in_flight_inv st =
    (case snd st of
       [] \<Rightarrow> True
     | [r] \<Rightarrow> isStreaming (fst st) \<and> abortController (fst st) = Some (fst r)
     | _ \<Rightarrow> False)"

subsection \<open>Sample data\<close>

definition fresh1 :: fresh where
  "fresh1 = \<lparr>userMessageId = ''u1'', userNow = ''2024-01-01T12:00:00.000Z'', controller = ''c1'',
     tempMessageId = ''a1'', tempNow = ''2024-01-01T12:00:00.001Z''\<rparr>"

definition fresh2 :: fresh where
  "fresh2 = \<lparr>userMessageId = ''u2'', userNow = ''2024-01-01T12:01:00.000Z'', controller = ''c2'',
     tempMessageId = ''a2'', tempNow = ''2024-01-01T12:01:00.001Z''\<rparr>"

definition fresh3 :: fresh where
  "fresh3 = \<lparr>userMessageId = ''u3'', userNow = ''2024-01-01T12:02:00.000Z'', controller = ''c3'',
     tempMessageId = ''a3'', tempNow = ''2024-01-01T12:02:00.001Z''\<rparr>"

text \<open>A page with one request streaming: a question sent, one chunk received.\<close>

definition streaming_page :: page where
  "streaming_page = fst (run [Submit ''hi'' fresh1, Call ''a1'' (Chunk ''Hel'')] initial)"

text \<open>
  Modelled from the spec: the event block the server writes (its code is not among the
  sources), an event-type line, a data line with the JSON payload and a blank line.
\<close>

definition event_line :: "string \<Rightarrow> string" where
  "event_line ev = ''event: '' @ ev @ [NL]"

definition data_line :: "string \<Rightarrow> string" where
  "data_line d = ''data: '' @ d @ [NL, NL]"

definition chunk_hi :: string where
  \<open>chunk_hi = ''{"chunk":"Hi"}''\<close>

definition chunk_there :: string where
  \<open>chunk_there = ''{"chunk":" there"}''\<close>

definition chunk_empty :: string where
  \<open>chunk_empty = ''{"chunk":""}''\<close>

definition complete_payload :: string where
  \<open>complete_payload = ''{"sources":[],"session_id":"s1"}''\<close>

definition broken_payload :: string where
  \<open>broken_payload = ''{"chunk":"Hi''\<close>

definition quoting_run :: "event list" where
  "quoting_run =
    [Submit ''hi'' fresh1,
     Call ''a1'' (Chunk ''Hello''),
     Call ''a1'' (Complete (Some (JArr [])) (Some (JStr ''s1''))),
     Submit ''Why did it say Generation cancelled by user?'' fresh2,
     Call ''a2'' (Chunk ''It is the notice shown after Stop.''),
     Call ''a2'' (Complete (Some (JArr [])) (Some (JStr ''s1'')))]"

definition quoting_page :: page where
  "quoting_page = fst (run quoting_run initial)"

definition sample_body :: "read_result list" where
  "sample_body =
    [Value (event_line ''answer_chunk'' @ data_line chunk_hi),
     Value (event_line ''answer_chunk'' @ data_line chunk_there
            @ event_line ''answer_complete'' @ data_line complete_payload),
     Done]"

definition failing_body :: "read_result list" where
  "failing_body =
    [Value (event_line ''answer_chunk'' @ data_line chunk_hi
            @ event_line ''answer_complete'' @ data_line complete_payload),
     Rejected (ErrorObj ''TypeError'' ''network error'')]"

definition late_chunk_body :: "read_result list" where
  "late_chunk_body =
    [Value (event_line ''answer_complete'' @ data_line complete_payload
            @ event_line ''answer_chunk'' @ data_line chunk_hi),
     Done]"

definition broken_line :: string where
  "broken_line = ''data: '' @ broken_payload"

definition aborted_body :: "read_result list" where
  "aborted_body =
    [Value (event_line ''answer_chunk'' @ data_line chunk_hi),
     Rejected (ErrorObj ''AbortError'' ''The user aborted a request.''),
     Value (event_line ''answer_chunk'' @ data_line chunk_there
            @ event_line ''answer_complete'' @ data_line complete_payload),
     Done]"

definition broken_body :: "read_result list" where
  "broken_body =
    [Value (event_line ''answer_complete'' @ data_line complete_payload),
     Rejected (ErrorObj ''TypeError'' ''network error'')]"

definition calm_run :: "event list" where
  "calm_run =
    [Submit ''a'' fresh1,
     Call ''a1'' (Chunk ''Hel''),
     Call ''a1'' (Complete (Some (JArr [])) (Some (JStr ''s1''))),
     Submit ''b'' fresh2,
     Stop,
     Call ''a2'' (Failed ''Request cancelled''),
     Submit ''c'' fresh3]"

definition stale_run :: "event list" where
  "stale_run =
    [Submit ''a'' fresh1,
     Call ''a1'' (Complete (Some (JArr [])) (Some (JStr ''s1''))),
     Submit ''b'' fresh2,
     Call ''a1'' (Failed ''network error''),
     Submit ''c'' fresh3]"

section \<open>Properties\<close>

subsection \<open>Strings\<close>

lemma startsWith_prefix: "startsWith s p = prefix p s"
proof
  assume "startsWith s p"
  then have "s = p @ drop (length p) s"
    unfolding startsWith_def by (metis append_take_drop_id)
  then show "prefix p s" by (metis prefixI)
next
  assume "prefix p s"
  then obtain zs where "s = p @ zs" by (auto simp: prefix_def)
  then show "startsWith s p" by (simp add: startsWith_def)
qed

lemma startsWith_append: "startsWith s p \<Longrightarrow> startsWith (s @ t) p"
  by (simp add: startsWith_prefix)

lemma split_nl_nonempty: "split_nl s \<noteq> []"
  by (induction s) (auto split: list.splits)

lemma split_nl_append_nl: "split_nl (xs @ NL # ys) = split_nl xs @ split_nl ys"
proof (induction xs)
  case Nil
  show ?case by simp
next
  case (Cons c xs)
  then show ?case
    using split_nl_nonempty [of xs] by (cases "split_nl xs") auto
qed

lemma split_nl_no_nl: "NL \<notin> set s \<Longrightarrow> split_nl s = [s]"
  by (induction s) auto

lemma startsWith_hd_split:
  "startsWith s p \<Longrightarrow> NL \<notin> set p \<Longrightarrow> \<exists>l ls. split_nl s = l # ls \<and> startsWith l p"
proof (induction s arbitrary: p)
  case Nil
  then show ?case by (simp add: startsWith_prefix)
next
  case (Cons c s)
  show ?case
  proof (cases p)
    case Nil
    obtain l ls where "split_nl (c # s) = l # ls"
      using split_nl_nonempty [of "c # s"] by (cases "split_nl (c # s)") auto
    then show ?thesis using Nil by (simp add: startsWith_prefix)
  next
    case (Cons q p')
    with Cons.prems have c: "c = q" "startsWith s p'" "NL \<notin> set p'" "q \<noteq> NL"
      by (auto simp: startsWith_prefix)
    from Cons.IH [OF c(2) c(3)] obtain l ls where "split_nl s = l # ls" "startsWith l p'"
      by blast
    then show ?thesis using c Cons by (simp add: startsWith_prefix)
  qed
qed

text \<open>\<open>trim\<close> leaves no white space at either end.\<close>

lemma find_None_list_ex:
  "[] \<notin> set ws \<Longrightarrow> find (\<lambda>w. w \<noteq> [] \<and> startsWith s w) ws = None
    \<Longrightarrow> \<not> list_ex (\<lambda>w. startsWith s w) ws"
  by (auto simp: find_None_iff list_ex_iff)

lemma strip_no_prefix:
  "[] \<notin> set ws \<Longrightarrow> \<not> list_ex (\<lambda>w. startsWith (strip ws s) w) ws"
proof (induction ws s rule: strip.induct)
  case (1 ws)
  then show ?case by (auto simp: list_ex_iff startsWith_prefix)
next
  case (2 ws c cs)
  show ?case
  proof (cases "find (\<lambda>w. w \<noteq> [] \<and> startsWith (c # cs) w) ws")
    case None
    then show ?thesis using find_None_list_ex [OF "2.prems" None] by simp
  next
    case (Some w)
    then show ?thesis using "2.IH" [OF Some "2.prems"] by simp
  qed
qed

lemma strip_suffix: "suffix (strip ws s) s"
proof (induction ws s rule: strip.induct)
  case (1 ws)
  show ?case by simp
next
  case (2 ws c cs)
  show ?case
  proof (cases "find (\<lambda>w. w \<noteq> [] \<and> startsWith (c # cs) w) ws")
    case None
    then show ?thesis by simp
  next
    case (Some w)
    have "suffix (strip ws (drop (length w - 1) cs)) (drop (length w - 1) cs)"
      using "2.IH" [OF Some] .
    moreover have "suffix (drop (length w - 1) cs) (c # cs)"
      by (simp add: suffix_drop suffix_ConsI)
    ultimately show ?thesis using Some by (auto intro: suffix_order.trans)
  qed
qed

lemma white_space_nonempty: "[] \<notin> set white_space"
  by (simp add: white_space_def)

lemma white_space_rev_nonempty: "[] \<notin> set (map rev white_space)"
  by (simp add: white_space_def)

lemma trimStart_no_leading: "\<not> leading_ws (trimStart s)"
  unfolding leading_ws_def trimStart_def
  by (rule strip_no_prefix [OF white_space_nonempty])

lemma trimEnd_prefix: "prefix (trimEnd s) s"
  unfolding trimEnd_def using strip_suffix [of "map rev white_space" "rev s"]
  by (simp add: suffix_to_prefix)

lemma trimEnd_no_trailing: "\<not> trailing_ws (trimEnd s)"
proof -
  have "\<not> list_ex (\<lambda>w. startsWith (strip (map rev white_space) (rev s)) w) (map rev white_space)"
    by (rule strip_no_prefix [OF white_space_rev_nonempty])
  then show ?thesis
    by (simp add: trailing_ws_def trimEnd_def endsWith_def list_ex_iff)
qed

lemma leading_ws_prefix:
  assumes "prefix t s" "leading_ws t"
  shows "leading_ws s"
proof -
  from assms(2) obtain w where w: "w \<in> set white_space" "prefix w t"
    by (auto simp: leading_ws_def list_ex_iff startsWith_prefix)
  then have "prefix w s" using assms(1) by (metis prefix_order.trans)
  then show ?thesis using w(1) by (auto simp: leading_ws_def list_ex_iff startsWith_prefix)
qed

lemma trim_no_ws: "\<not> leading_ws (trim s) \<and> \<not> trailing_ws (trim s)"
  unfolding trim_def
  using trimEnd_no_trailing trimStart_no_leading leading_ws_prefix [OF trimEnd_prefix]
  by blast

subsection \<open>The chat input\<close>

text \<open>
  Claim C7. Every request the client submits carries a non-empty question: when
  \<open>ChatInput.handleSubmit\<close> calls \<open>onSendMessage\<close>, the input was neither loading nor
  disabled, the argument is the trimmed text of the textarea, it is not empty, it has no
  leading and no trailing white space, and it is the \<open>question\<close> of the request that
  \<open>handleSendMessage\<close> sends.
\<close>

theorem submitted_question_trimmed:
  assumes "fst (handleSubmit msg isLoading disabled) = Some q"
  shows "q = trim msg \<and> q \<noteq> [] \<and> \<not> leading_ws q \<and> \<not> trailing_ws q
         \<and> \<not> isLoading \<and> \<not> disabled
         \<and> question (snd (handleSendMessage snap q env s)) = q"
proof -
  from assms have a: "trim msg \<noteq> []" "\<not> isLoading" "\<not> disabled" "q = trim msg"
    by (auto simp: handleSubmit_def split: if_splits)
  then show ?thesis
    using trim_no_ws [of msg]
    by (simp add: handleSendMessage_def handleStreamingResponse_def)
qed

lemma handleSubmit_sample:
  "fst (handleSubmit ([CHR 0x20, CHR 0x09] @ ''What about Bitcoin?  '' @ [NL]) False False)
     = Some ''What about Bitcoin?''"
  by code_simp

theorem submitted_question_trimmed_witness:
  "fst (handleSubmit ([CHR 0x20, CHR 0x09] @ ''What about Bitcoin?  '' @ [NL]) False False)
     = Some ''What about Bitcoin?''
   \<and> (''What about Bitcoin?'' = trim ([CHR 0x20, CHR 0x09] @ ''What about Bitcoin?  '' @ [NL])
   \<and> ''What about Bitcoin?'' \<noteq> []
   \<and> \<not> leading_ws ''What about Bitcoin?'' \<and> \<not> trailing_ws ''What about Bitcoin?''
   \<and> \<not> False \<and> \<not> False
   \<and> question (snd (handleSendMessage (fst initial) ''What about Bitcoin?'' fresh1 (fst initial)))
       = ''What about Bitcoin?'')"
  by (rule conjI [OF handleSubmit_sample
        submitted_question_trimmed [OF handleSubmit_sample, of "fst initial" fresh1 "fst initial"]])

subsection \<open>Stop\<close>

lemma stop_messages_idem:
  "map (\<lambda>msg. if msg_isStreaming msg = Some True
        then msg\<lparr>message := message msg @ t, msg_isStreaming := Some False\<rparr> else msg)
     (map (\<lambda>msg. if msg_isStreaming msg = Some True
        then msg\<lparr>message := message msg @ t, msg_isStreaming := Some False\<rparr> else msg) ms)
   = map (\<lambda>msg. if msg_isStreaming msg = Some True
        then msg\<lparr>message := message msg @ t, msg_isStreaming := Some False\<rparr> else msg) ms"
  by (induction ms) auto

lemma stop_clears_controller: "abortController (handleStopGeneration s s) = None"
  by (cases "abortController s") (simp_all add: handleStopGeneration_def)

text \<open>
  Claim C6. Cancellation is idempotent at the client: \<open>handleStopGeneration\<close> with no
  request in flight (\<open>abortController\<close> is null) leaves the page as it is, and invoking it
  twice has the effect of invoking it once, whether the second call closes over the same
  render as the first or over the render that followed it. The function has no branch that
  throws.
\<close>

theorem stop_idempotent:
  "(abortController snap = None \<longrightarrow> handleStopGeneration snap s = s)
   \<and> handleStopGeneration snap (handleStopGeneration snap s) = handleStopGeneration snap s
   \<and> handleStopGeneration (handleStopGeneration s s) (handleStopGeneration s s)
       = handleStopGeneration s s"
proof -
  have c: "handleStopGeneration (handleStopGeneration s s) t = t" for t
    using stop_clears_controller [of s] by (simp add: handleStopGeneration_def)
  have "handleStopGeneration snap (handleStopGeneration snap s) = handleStopGeneration snap s"
    by (cases "abortController snap") (simp_all add: handleStopGeneration_def stop_messages_idem)
  then show ?thesis using c by (simp add: handleStopGeneration_def)
qed

lemma streaming_page_controller: "abortController streaming_page = Some ''c1''"
  by code_simp

lemma initial_controller: "abortController (fst initial) = None"
  by (simp add: initial_def)

theorem stop_idempotent_witness:
  "abortController (fst initial) = None
   \<and> handleStopGeneration (fst initial) streaming_page = streaming_page
   \<and> abortController streaming_page = Some ''c1''
   \<and> handleStopGeneration streaming_page (handleStopGeneration streaming_page streaming_page)
       = handleStopGeneration streaming_page streaming_page
   \<and> handleStopGeneration (handleStopGeneration streaming_page streaming_page)
        (handleStopGeneration streaming_page streaming_page)
       = handleStopGeneration streaming_page streaming_page"
  using stop_idempotent [of "fst initial" streaming_page]
    stop_idempotent [of streaming_page streaming_page]
    initial_controller streaming_page_controller
  by simp

subsection \<open>The history sent with a request\<close>

text \<open>
  What the history is: the turns of the messages whose text contains neither of the two
  phrases, in the order of the messages, with role \<open>user\<close> exactly for a user message,
  each with its own text and timestamp; and it is built from the messages of the render the
  handler closes over.
\<close>

lemma chat_history_ordered:
  "chatHistory msgs =
     map (\<lambda>m. \<lparr>role = (if isUser m then User else Assistant), content = message m,
               turn_timestamp = timestamp m\<rparr>)
       (filter (\<lambda>m. \<not> includes_str (message m) ''Sorry, I encountered an error''
                   \<and> \<not> includes_str (message m) ''Generation cancelled by user'') msgs)
   \<and> subseq (chatHistory msgs)
        (map (\<lambda>m. \<lparr>role = (if isUser m then User else Assistant), content = message m,
               turn_timestamp = timestamp m\<rparr>) msgs)
   \<and> question (snd (handleSendMessage snap q env s)) = q
   \<and> chat_history (snd (handleSendMessage snap q env s)) = chatHistory (messages snap)"
  by (simp add: chatHistory_def Let_def subseq_map handleSendMessage_def
        handleStreamingResponse_def)

text \<open>
  Claim C8. The \<open>chat_history\<close> sent with a request is the ordered subsequence of all
  prior messages, of the user and of the assistant, without the error and cancellation
  placeholders. The code breaks it on the conversation below: two exchanges have completed,
  the second question of the user quotes the cancellation notice, no request was cancelled
  and none failed, so no message is a placeholder; the history sent with the third
  question has the first exchange and the second answer and leaves the second question
  out. The filter tells a placeholder by a substring of the text, against its own comment
  (exclude error messages and cancellations).
\<close>

theorem chat_history_drops_user_message:
  "map message (messages quoting_page)
     = [''hi'', ''Hello'', ''Why did it say Generation cancelled by user?'',
        ''It is the notice shown after Stop.'']
   \<and> map isUser (messages quoting_page) = [True, False, True, False]
   \<and> \<not> isStreaming quoting_page
   \<and> snd (run quoting_run initial) = []
   \<and> map content
        (chat_history (snd (handleSendMessage quoting_page ''And now?'' fresh3 quoting_page)))
     = [''hi'', ''Hello'', ''It is the notice shown after Stop.'']
   \<and> map role
        (chat_history (snd (handleSendMessage quoting_page ''And now?'' fresh3 quoting_page)))
     = [User, Assistant, Assistant]"
  by code_simp

subsection \<open>Chunks accumulate in the temporary message\<close>

lemma find_append_last:
  "\<forall>m\<in>set ms. \<not> P m \<Longrightarrow> P x \<Longrightarrow> find P (ms @ [x]) = Some x"
  by (induction ms) auto

lemma map_other_ids:
  "tid \<notin> msg_id ` set ms \<Longrightarrow> map (\<lambda>msg. if msg_id msg = tid then g msg else msg) ms = ms"
  by (induction ms) auto

lemma onChunk_last:
  assumes "messages t = ms @ [tm]" "msg_id tm = tid" "tid \<notin> msg_id ` set ms"
  shows "messages (onChunk tid c t) = ms @ [tm\<lparr>message := message tm @ c\<rparr>]"
proof -
  have "\<forall>m\<in>set ms. \<not> msg_id m = tid"
    using assms(3) by (auto simp: image_iff)
  then have f: "find (\<lambda>m. msg_id m = tid) (ms @ [tm]) = Some tm"
    using assms(2) by (intro find_append_last) auto
  show ?thesis
    using assms f map_other_ids [OF assms(3)] by (simp add: onChunk_def Let_def)
qed

lemma chunks_last:
  assumes "messages t = ms @ [tm]" "msg_id tm = tid" "tid \<notin> msg_id ` set ms"
  shows "messages (callbacks tid (map Chunk cs) t) = ms @ [tm\<lparr>message := message tm @ concat cs\<rparr>]"
  using assms
proof (induction cs arbitrary: t tm)
  case Nil
  then show ?case by (simp add: callbacks_def)
next
  case (Cons c cs)
  have a: "messages (onChunk tid c t) = ms @ [tm\<lparr>message := message tm @ c\<rparr>]"
    using onChunk_last [OF Cons.prems] .
  have "messages (callbacks tid (map Chunk cs) (onChunk tid c t))
        = ms @ [(tm\<lparr>message := message tm @ c\<rparr>)
                 \<lparr>message := message (tm\<lparr>message := message tm @ c\<rparr>) @ concat cs\<rparr>]"
    using Cons.IH [OF a] Cons.prems by simp
  then show ?case by (simp add: callbacks_def)
qed

lemma onComplete_last:
  assumes "messages t = ms @ [tm]" "msg_id tm = tid" "tid \<notin> msg_id ` set ms"
  shows "messages (onComplete tid srcs sid t)
         = ms @ [tm\<lparr>sources := srcs, msg_isStreaming := Some False\<rparr>]"
  using assms map_other_ids [OF assms(3)] by (simp add: onComplete_def)

lemma typed_calls_handler_calls: "typed_calls (handler_calls out) = typed_calls out"
  unfolding handler_calls_def
  by (induction out rule: typed_calls.induct) auto

lemma typed_calls_chunks:
  "typed_calls (map (\<lambda>c. OnChunk (Some (JStr c))) cs @ [OnComplete srcs sid])
     = Some (map Chunk cs @ [Complete srcs sid])"
  by (induction cs) auto

text \<open>
  Claim C3. For every request whose stream delivers chunk events \<open>c1 .. cn\<close> followed by a
  complete event (the handler invocations of \<open>askQuestionStream\<close> are \<open>onChunk(c1)\<close>, ...,
  \<open>onChunk(cn)\<close>, \<open>onComplete\<close>), the text of the message with the temporary id is
  \<open>c1 @ ... @ cn\<close>: nothing is lost and nothing is doubled. The temporary id is one no
  earlier message has, as \<open>crypto.randomUUID()\<close> gives.
\<close>

theorem chunks_concatenate:
  assumes "tempMessageId env \<notin> msg_id ` set (messages s)"
      and "handler_calls (askQuestionStream r)
             = map (\<lambda>c. OnChunk (Some (JStr c))) cs @ [OnComplete srcs sid]"
  shows "map_option messages
           (deliver (tempMessageId env) (askQuestionStream r)
              (fst (handleStreamingResponse snap q env s)))
         = Some (messages s @
             [\<lparr>msg_id = tempMessageId env, message = concat cs, isUser = False,
               timestamp = tempNow env, sources = srcs, msg_isStreaming = Some False\<rparr>])"
proof -
  let ?tid = "tempMessageId env"
  let ?tm = "\<lparr>msg_id = ?tid, message = [], isUser = False,
               timestamp = tempNow env, sources = None, msg_isStreaming = Some True\<rparr>"
  let ?s1 = "fst (handleStreamingResponse snap q env s)"
  have tc: "typed_calls (askQuestionStream r) = Some (map Chunk cs @ [Complete srcs sid])"
    using typed_calls_handler_calls [of "askQuestionStream r"] assms(2) typed_calls_chunks
    by simp
  have m1: "messages ?s1 = messages s @ [?tm]"
    by (simp add: handleStreamingResponse_def)
  have m2: "messages (callbacks ?tid (map Chunk cs) ?s1)
             = messages s @ [?tm\<lparr>message := message ?tm @ concat cs\<rparr>]"
    by (rule chunks_last [OF m1 _ assms(1)]) simp
  have m3: "messages (onComplete ?tid srcs sid (callbacks ?tid (map Chunk cs) ?s1))
             = messages s @ [(?tm\<lparr>message := message ?tm @ concat cs\<rparr>)
                  \<lparr>sources := srcs, msg_isStreaming := Some False\<rparr>]"
    by (rule onComplete_last [OF m2 _ assms(1)]) simp
  have "callbacks ?tid (map Chunk cs @ [Complete srcs sid]) ?s1
        = onComplete ?tid srcs sid (callbacks ?tid (map Chunk cs) ?s1)"
    by (simp add: callbacks_def)
  then show ?thesis using tc m3 by (simp add: deliver_def)
qed

lemma sample_fresh: "tempMessageId fresh2 \<notin> msg_id ` set (messages streaming_page)"
  by code_simp

lemma sample_body_calls:
  "handler_calls (askQuestionStream (Response True 200 (Some sample_body)))
     = map (\<lambda>c. OnChunk (Some (JStr c))) [''Hi'', '' there'']
       @ [OnComplete (Some (JArr [])) (Some (JStr ''s1''))]"
  by code_simp

theorem chunks_concatenate_witness:
  "tempMessageId fresh2 \<notin> msg_id ` set (messages streaming_page)
   \<and> handler_calls (askQuestionStream (Response True 200 (Some sample_body)))
       = map (\<lambda>c. OnChunk (Some (JStr c))) [''Hi'', '' there'']
         @ [OnComplete (Some (JArr [])) (Some (JStr ''s1''))]
   \<and> map_option messages
        (deliver (tempMessageId fresh2) (askQuestionStream (Response True 200 (Some sample_body)))
           (fst (handleStreamingResponse streaming_page ''and Ethereum?'' fresh2 streaming_page)))
       = Some (messages streaming_page @
           [\<lparr>msg_id = tempMessageId fresh2, message = concat [''Hi'', '' there''], isUser = False,
             timestamp = tempNow fresh2, sources = Some (JArr []),
             msg_isStreaming = Some False\<rparr>])"
  by (intro conjI sample_fresh sample_body_calls
        chunks_concatenate [OF sample_fresh sample_body_calls])

subsection \<open>The decoder, read by read\<close>

lemma process_lines_append:
  "process_lines st (xs @ ys) = process_lines st xs @ process_lines (end_state st xs) ys"
  by (induction xs arbitrary: st) (auto split: prod.splits)

lemma process_line_data_irrelevant:
  "snd (process_line (ev, d) l) = snd (process_line (ev, d') l)
   \<and> fst (fst (process_line (ev, d) l)) = fst (fst (process_line (ev, d') l))"
  unfolding process_line_def Let_def by simp

lemma process_lines_data_irrelevant:
  "process_lines (ev, d) ls = process_lines (ev, d') ls"
proof (induction ls arbitrary: ev d d')
  case Nil
  show ?case by simp
next
  case (Cons l ls)
  obtain ev1 d1 out1 where p1: "process_line (ev, d) l = ((ev1, d1), out1)"
    by (metis surj_pair)
  obtain ev2 d2 out2 where p2: "process_line (ev, d') l = ((ev2, d2), out2)"
    by (metis surj_pair)
  have "out1 = out2 \<and> ev1 = ev2"
    using process_line_data_irrelevant [of ev d l d'] p1 p2 by simp
  then show ?case
    using p1 p2 Cons.IH [of ev1 d1 d2] by simp
qed

lemma process_lines_event_first:
  assumes "startsWith l ''event: ''"
  shows "process_lines (ev, d) (l # ls) = process_lines ([], []) (l # ls)"
  using assms process_lines_data_irrelevant [of "trim (drop 7 l)" d ls "[]"]
  by (simp add: process_line_def)

lemma process_line_blank: "process_line st [] = (st, [])"
  by (simp add: process_line_def startsWith_def split: prod.splits)

lemma decode_read_empty: "decode_read [] = []"
  by (simp add: decode_read_def process_line_blank)

lemma decode_read_append:
  assumes "endsWith r1 [NL]" "startsWith r2 ''event: ''"
  shows "decode_read (r1 @ r2) = decode_read r1 @ decode_read r2"
proof -
  from assms(1) have "prefix [NL] (rev r1)"
    by (simp add: endsWith_def startsWith_prefix)
  then obtain y where "rev r1 = NL # y" by (auto simp: prefix_def)
  then have r1: "r1 = rev y @ [NL]" by (metis rev_rev_ident rev.simps(2))
  obtain l ls where l: "split_nl r2 = l # ls" "startsWith l ''event: ''"
    using startsWith_hd_split [OF assms(2)] by auto
  obtain ev d where st: "end_state ([], []) (split_nl (rev y)) = (ev, d)"
    by (metis surj_pair)
  have a: "decode_read r1 = process_lines ([], []) (split_nl (rev y))"
    using r1 split_nl_append_nl [of "rev y" "[]"]
    by (simp add: decode_read_def process_lines_append process_line_blank)
  have "decode_read (r1 @ r2)
        = process_lines ([], []) (split_nl (rev y)) @ process_lines (ev, d) (l # ls)"
    using r1 split_nl_append_nl [of "rev y" r2] l st
    by (simp add: decode_read_def process_lines_append)
  also have "process_lines (ev, d) (l # ls) = decode_read r2"
    using process_lines_event_first [OF l(2)] l(1) by (simp add: decode_read_def)
  finally show ?thesis using a by simp
qed

lemma decode_read_concat:
  assumes "\<forall>r\<in>set (butlast rs). endsWith r [NL]" "\<forall>r\<in>set (tl rs). startsWith r ''event: ''"
  shows "decode_read (concat rs) = concat (map decode_read rs)"
  using assms
proof (induction rs)
  case Nil
  show ?case by (simp add: decode_read_empty)
next
  case (Cons r rs)
  show ?case
  proof (cases rs)
    case Nil
    then show ?thesis by simp
  next
    case (Cons r' rs')
    have e: "endsWith r [NL]" using Cons.prems(1) Cons by simp
    have "startsWith r' ''event: ''" using Cons.prems(2) Cons by simp
    then have s: "startsWith (concat rs) ''event: ''"
      using Cons by (simp add: startsWith_append)
    have ih: "decode_read (concat rs) = concat (map decode_read rs)"
    proof (rule Cons.IH)
      show "\<forall>r\<in>set (butlast rs). endsWith r [NL]"
        using Cons.prems(1) Cons by simp
      show "\<forall>r\<in>set (tl rs). startsWith r ''event: ''"
        using Cons.prems(2) Cons by simp
    qed
    show ?thesis using decode_read_append [OF e s] ih by simp
  qed
qed

lemma read_loop_values:
  "read_loop (map Value rs @ rest)
     = (concat (map decode_read rs) @ fst (read_loop rest), snd (read_loop rest))"
  by (induction rs) (auto split: prod.splits)

lemma askQuestionStream_body:
  "askQuestionStream (Response True status (Some rs))
     = fst (read_loop rs) @ (case snd (read_loop rs) of Throw e \<Rightarrow> catch_block e | _ \<Rightarrow> [])"
  by (simp add: askQuestionStream_def split: prod.splits loop_exit.splits)

lemma askQuestionStream_done:
  "askQuestionStream (Response True status (Some (map Value rs @ [Done])))
     = concat (map decode_read rs)"
  by (simp add: askQuestionStream_body read_loop_values)

lemma askQuestionStream_rejected:
  "askQuestionStream (Response True status (Some (map Value rs @ Rejected e # later)))
     = concat (map decode_read rs) @ catch_block e"
  by (simp add: askQuestionStream_body read_loop_values)

lemma handler_calls_append: "handler_calls (xs @ ys) = handler_calls xs @ handler_calls ys"
  by (simp add: handler_calls_def)

lemma handler_calls_concat:
  "handler_calls (concat xss) = concat (map handler_calls xss)"
  by (induction xss) (simp_all add: handler_calls_def)

lemma catch_block_single: "\<exists>v. catch_block e = [OnError v]"
  by (cases e) (simp_all add: catch_block_def)

lemma handler_calls_catch_block: "handler_calls (catch_block e) = catch_block e"
  using catch_block_single [of e] by (auto simp: handler_calls_def)

lemma terminal_last_snoc:
  "is_terminal t \<Longrightarrow> terminal_last (xs @ [t]) = (\<not> list_ex is_terminal xs)"
  by (induction xs) auto

subsection \<open>Splitting of the body into reads\<close>

text \<open>
  Claim C1, as amended. The decoder keeps no buffer from one read to the next: each read is
  split at its line feeds and decoded on its own, from an empty event type. The handler
  invocations (and the log lines) are those of the bytes received in one piece when the
  reads are cut at event boundaries: every read but the last ends with a line feed, and
  every read but the first starts with an event-type line.
\<close>

theorem reads_at_event_boundaries:
  assumes "\<forall>r\<in>set (butlast rs). endsWith r [NL]" "\<forall>r\<in>set (tl rs). startsWith r ''event: ''"
  shows "askQuestionStream (Response True status (Some (map Value rs @ [Done])))
         = decode_read (concat rs)"
  using decode_read_concat [OF assms] by (simp add: askQuestionStream_done)

lemma sample_cut_ends: "endsWith (event_line ''answer_chunk'' @ data_line chunk_hi) [NL]"
  by code_simp

lemma sample_cut_starts: "startsWith (event_line ''answer_chunk'' @ data_line chunk_there) ''event: ''"
  by code_simp

theorem reads_at_event_boundaries_witness:
  "endsWith (event_line ''answer_chunk'' @ data_line chunk_hi) [NL]
   \<and> startsWith (event_line ''answer_chunk'' @ data_line chunk_there) ''event: ''
   \<and> askQuestionStream (Response True 200 (Some (map Value
         [event_line ''answer_chunk'' @ data_line chunk_hi,
          event_line ''answer_chunk'' @ data_line chunk_there] @ [Done])))
       = decode_read (concat
         [event_line ''answer_chunk'' @ data_line chunk_hi,
          event_line ''answer_chunk'' @ data_line chunk_there])"
proof -
  have "askQuestionStream (Response True 200 (Some (map Value
         [event_line ''answer_chunk'' @ data_line chunk_hi,
          event_line ''answer_chunk'' @ data_line chunk_there] @ [Done])))
       = decode_read (concat
         [event_line ''answer_chunk'' @ data_line chunk_hi,
          event_line ''answer_chunk'' @ data_line chunk_there])"
    by (rule reads_at_event_boundaries) (simp_all add: sample_cut_ends sample_cut_starts)
  then show ?thesis using sample_cut_ends sample_cut_starts by blast
qed

text \<open>
  Claim C1 as stated fails: the same bytes give one \<open>onChunk\<close> when they arrive in one
  read and no handler invocation when the read ends between the event-type line and the
  data line.
\<close>

theorem split_between_lines_loses_event:
  "concat [event_line ''answer_chunk'', data_line chunk_hi]
     = concat [event_line ''answer_chunk'' @ data_line chunk_hi]
   \<and> handler_calls (askQuestionStream (Response True 200 (Some
        [Value (event_line ''answer_chunk'' @ data_line chunk_hi), Done])))
       = [OnChunk (Some (JStr ''Hi''))]
   \<and> handler_calls (askQuestionStream (Response True 200 (Some
        [Value (event_line ''answer_chunk''), Value (data_line chunk_hi), Done])))
       = []"
  by code_simp

subsection \<open>Terminal notifications\<close>

text \<open>
  Claim C2, as amended. The decoder does not stop at a terminal notification: it decodes
  every read of the body, whatever it has delivered before, and when \<open>fetch\<close> or a read
  fails it adds one \<open>onError\<close>, as its last call. So it delivers at most one terminal
  notification, with no call after it, exactly when the events decoded from the body have
  at most one terminal event, as the last of them, and have none when the body ends in a
  failure. A request that fails before its body is read (\<open>fetch\<close> rejects, the status is
  not ok, or there is no body) gets exactly one \<open>onError\<close> and no other call, with the
  message the \<open>catch\<close> block picks.
\<close>

theorem terminal_calls_as_decoded:
  "handler_calls (askQuestionStream (Response True status (Some (map Value rs @ [Done]))))
     = concat (map (\<lambda>r. handler_calls (decode_read r)) rs)
   \<and> handler_calls (askQuestionStream (Response True status (Some (map Value rs @ [Rejected e]))))
     = concat (map (\<lambda>r. handler_calls (decode_read r)) rs) @ catch_block e
   \<and> terminal_last (handler_calls
        (askQuestionStream (Response True status (Some (map Value rs @ [Done])))))
     = terminal_last (concat (map (\<lambda>r. handler_calls (decode_read r)) rs))
   \<and> terminal_last (handler_calls
        (askQuestionStream (Response True status (Some (map Value rs @ [Rejected e])))))
     = (\<not> list_ex is_terminal (concat (map (\<lambda>r. handler_calls (decode_read r)) rs)))
   \<and> catch_block e
     = [OnError (Some (JStr
          (case e of
             ErrorObj name msg \<Rightarrow> if name = ''AbortError'' then ''Request cancelled'' else msg
           | NotAnError \<Rightarrow> ''Unknown error'')))]
   \<and> handler_calls (askQuestionStream (FetchRejected e)) = catch_block e
   \<and> handler_calls (askQuestionStream (Response False status body))
     = [OnError (Some (JStr (''HTTP error! status: '' @ show_nat status)))]
   \<and> handler_calls (askQuestionStream (Response True status None))
     = [OnError (Some (JStr ''No response body''))]
   \<and> terminal_last (handler_calls (askQuestionStream (FetchRejected e)))
   \<and> terminal_last (handler_calls (askQuestionStream (Response False status body)))
   \<and> terminal_last (handler_calls (askQuestionStream (Response True status None)))"
proof -
  let ?body = "concat (map (\<lambda>r. handler_calls (decode_read r)) rs)"
  have d: "handler_calls (askQuestionStream (Response True status (Some (map Value rs @ [Done]))))
           = ?body"
    by (simp add: askQuestionStream_done handler_calls_concat comp_def)
  have r: "handler_calls (askQuestionStream (Response True status (Some (map Value rs @ [Rejected e]))))
           = ?body @ catch_block e"
    by (simp add: askQuestionStream_rejected handler_calls_append handler_calls_concat
          handler_calls_catch_block comp_def)
  have k: "catch_block e
     = [OnError (Some (JStr
          (case e of
             ErrorObj name msg \<Rightarrow> if name = ''AbortError'' then ''Request cancelled'' else msg
           | NotAnError \<Rightarrow> ''Unknown error'')))]"
    by (cases e) (simp_all add: catch_block_def)
  have f: "handler_calls (askQuestionStream (FetchRejected e)) = catch_block e"
    by (simp add: askQuestionStream_def handler_calls_catch_block)
  have n: "handler_calls (askQuestionStream (Response False status body))
     = [OnError (Some (JStr (''HTTP error! status: '' @ show_nat status)))]"
    by (simp add: askQuestionStream_def catch_block_def handler_calls_def del: show_nat.simps)
  have b: "handler_calls (askQuestionStream (Response True status None))
     = [OnError (Some (JStr ''No response body''))]"
    by (simp add: askQuestionStream_def catch_block_def handler_calls_def)
  have t: "terminal_last (?body @ catch_block e) = (\<not> list_ex is_terminal ?body)"
    unfolding k by (rule terminal_last_snoc) simp
  have tf: "terminal_last (handler_calls (askQuestionStream (FetchRejected e)))"
    unfolding f k by simp
  have tn: "terminal_last (handler_calls (askQuestionStream (Response False status body)))"
    unfolding n by simp
  have tb: "terminal_last (handler_calls (askQuestionStream (Response True status None)))"
    unfolding b by simp
  show ?thesis
    unfolding d r t
    using k f n b tf tn tb by (intro conjI) simp_all
qed

lemma sample_body_decoded:
  "concat (map (\<lambda>r. handler_calls (decode_read r))
          [event_line ''answer_chunk'' @ data_line chunk_hi,
           event_line ''answer_chunk'' @ data_line chunk_there
            @ event_line ''answer_complete'' @ data_line complete_payload])
   = [OnChunk (Some (JStr ''Hi'')), OnChunk (Some (JStr '' there'')),
      OnComplete (Some (JArr [])) (Some (JStr ''s1''))]"
  by code_simp

lemma show_nat_503: "show_nat 503 = ''503''"
  by code_simp

theorem terminal_calls_as_decoded_witness:
  "handler_calls (askQuestionStream (Response True 200 (Some sample_body)))
      = [OnChunk (Some (JStr ''Hi'')), OnChunk (Some (JStr '' there'')),
         OnComplete (Some (JArr [])) (Some (JStr ''s1''))]
   \<and> terminal_last (handler_calls (askQuestionStream (Response True 200 (Some sample_body))))
   \<and> handler_calls (askQuestionStream (FetchRejected (ErrorObj ''TypeError'' ''Failed to fetch'')))
      = [OnError (Some (JStr ''Failed to fetch''))]
   \<and> handler_calls (askQuestionStream (FetchRejected NotAnError))
      = [OnError (Some (JStr ''Unknown error''))]
   \<and> handler_calls (askQuestionStream (Response False 503 None))
      = [OnError (Some (JStr ''HTTP error! status: 503''))]
   \<and> handler_calls (askQuestionStream (Response True 200 None))
      = [OnError (Some (JStr ''No response body''))]"
proof -
  have b: "sample_body = map Value
          [event_line ''answer_chunk'' @ data_line chunk_hi,
           event_line ''answer_chunk'' @ data_line chunk_there
            @ event_line ''answer_complete'' @ data_line complete_payload] @ [Done]"
    by (simp add: sample_body_def)
  note w1 = terminal_calls_as_decoded [where status = 200 and body = None
      and e = "ErrorObj ''TypeError'' ''Failed to fetch''"
      and rs = "[event_line ''answer_chunk'' @ data_line chunk_hi,
           event_line ''answer_chunk'' @ data_line chunk_there
            @ event_line ''answer_complete'' @ data_line complete_payload]"]
  note w2 = terminal_calls_as_decoded [where status = 503 and body = None
      and e = NotAnError and rs = "[]"]
  have 1: "handler_calls (askQuestionStream (Response True 200 (Some sample_body)))
      = [OnChunk (Some (JStr ''Hi'')), OnChunk (Some (JStr '' there'')),
         OnComplete (Some (JArr [])) (Some (JStr ''s1''))]"
    unfolding b using w1 sample_body_decoded by simp
  have 2: "terminal_last (handler_calls (askQuestionStream (Response True 200 (Some sample_body))))"
    unfolding 1 by simp
  have 3: "handler_calls (askQuestionStream (FetchRejected (ErrorObj ''TypeError'' ''Failed to fetch'')))
      = [OnError (Some (JStr ''Failed to fetch''))]"
    using w1 by simp
  have 4: "handler_calls (askQuestionStream (FetchRejected NotAnError))
      = [OnError (Some (JStr ''Unknown error''))]"
    using w2 by simp
  have 5: "handler_calls (askQuestionStream (Response False 503 None))
      = [OnError (Some (JStr ''HTTP error! status: 503''))]"
    using w2 show_nat_503 by (simp del: show_nat.simps)
  have 6: "handler_calls (askQuestionStream (Response True 200 None))
      = [OnError (Some (JStr ''No response body''))]"
    using w1 by simp
  show ?thesis using 1 2 3 4 5 6 by (intro conjI)
qed

text \<open>
  Claim C2 as stated fails. A body that carries the complete event and then breaks gives
  \<open>onComplete\<close> and then \<open>onError\<close>, two terminal notifications; a body that carries
  a chunk event after the complete event gives \<open>onChunk\<close> after \<open>onComplete\<close>.
\<close>

theorem two_terminal_notifications:
  "handler_calls (askQuestionStream (Response True 200 (Some failing_body)))
     = [OnChunk (Some (JStr ''Hi'')), OnComplete (Some (JArr [])) (Some (JStr ''s1'')),
        OnError (Some (JStr ''network error''))]
   \<and> \<not> terminal_last (handler_calls (askQuestionStream (Response True 200 (Some failing_body))))
   \<and> handler_calls (askQuestionStream (Response True 200 (Some late_chunk_body)))
     = [OnComplete (Some (JArr [])) (Some (JStr ''s1'')), OnChunk (Some (JStr ''Hi''))]
   \<and> \<not> terminal_last (handler_calls (askQuestionStream (Response True 200 (Some late_chunk_body))))"
  by code_simp

subsection \<open>Malformed payloads\<close>

lemma data_line_not_event:
  assumes "startsWith line ''data: ''"
  shows "\<not> startsWith line ''event: ''"
  using assms by (cases line) (auto simp: startsWith_prefix)

lemma process_line_unparseable:
  assumes "startsWith line ''data: ''" "JSON_parse (trim (drop 6 line)) = Inl SyntaxError"
  shows "process_line (ev, d) line
         = ((ev, trim (drop 6 line)),
            if trim (drop 6 line) \<noteq> [] \<and> ev \<noteq> [] then [ConsoleError] else [])"
  using assms data_line_not_event [OF assms(1)]
  by (simp add: process_line_def Let_def try_parse_def then_do_def)

lemma handler_calls_process_lines_skip:
  assumes "startsWith line ''data: ''" "JSON_parse (trim (drop 6 line)) = Inl SyntaxError"
  shows "handler_calls (process_lines st (xs @ line # ys))
         = handler_calls (process_lines st (xs @ ys))"
proof -
  obtain ev d where e: "end_state st xs = (ev, d)" by (metis surj_pair)
  have "process_lines (ev, d) (line # ys)
        = (if trim (drop 6 line) \<noteq> [] \<and> ev \<noteq> [] then [ConsoleError] else [])
          @ process_lines (ev, trim (drop 6 line)) ys"
    using process_line_unparseable [OF assms] by simp
  also have "process_lines (ev, trim (drop 6 line)) ys = process_lines (ev, d) ys"
    by (rule process_lines_data_irrelevant)
  finally show ?thesis
    using e by (simp add: process_lines_append handler_calls_def)
qed

lemma decode_read_skip:
  assumes "NL \<notin> set line" "startsWith line ''data: ''"
      and "JSON_parse (trim (drop 6 line)) = Inl SyntaxError"
      and "a = [] \<or> endsWith a [NL]"
  shows "handler_calls (decode_read (a @ line @ NL # b)) = handler_calls (decode_read (a @ b))"
proof (cases "a = []")
  case True
  have "split_nl (line @ NL # b) = [] @ line # split_nl b"
    using split_nl_append_nl [of line b] split_nl_no_nl [OF assms(1)] by simp
  then show ?thesis
    using True handler_calls_process_lines_skip [OF assms(2,3), of "([], [])" "[]" "split_nl b"]
    by (simp add: decode_read_def)
next
  case False
  with assms(4) have "prefix [NL] (rev a)"
    by (simp add: endsWith_def startsWith_prefix)
  then obtain y where "rev a = NL # y" by (auto simp: prefix_def)
  then have a: "a = rev y @ [NL]" by (metis rev_rev_ident rev.simps(2))
  have 1: "split_nl (a @ line @ NL # b) = split_nl (rev y) @ line # split_nl b"
    using a split_nl_append_nl [of "rev y" "line @ NL # b"] split_nl_append_nl [of line b]
      split_nl_no_nl [OF assms(1)]
    by simp
  have 2: "split_nl (a @ b) = split_nl (rev y) @ split_nl b"
    using a split_nl_append_nl [of "rev y" b] by simp
  show ?thesis
    unfolding decode_read_def 1 2
    by (rule handler_calls_process_lines_skip [OF assms(2,3)])
qed

text \<open>
  Claim C4. A data line whose payload is not parseable JSON is dropped and the stream goes
  on: the line calls no handler, it is logged (when an event type is current and the
  payload is not empty), the lines after it in the same read are processed from the event
  type that was current before it, every read before and after it is decoded, and the
  handler invocations of the whole request are those of the same body without that line.
\<close>

theorem malformed_payload_skipped:
  assumes "NL \<notin> set line" "startsWith line ''data: ''"
      and "JSON_parse (trim (drop 6 line)) = Inl SyntaxError"
      and "a = [] \<or> endsWith a [NL]"
  shows "handler_calls (askQuestionStream
            (Response True status (Some (map Value pre @ Value (a @ line @ NL # b) # post))))
         = handler_calls (askQuestionStream
            (Response True status (Some (map Value pre @ Value (a @ b) # post))))
         \<and> process_line (ev, d) line
           = ((ev, trim (drop 6 line)),
              if trim (drop 6 line) \<noteq> [] \<and> ev \<noteq> [] then [ConsoleError] else [])
         \<and> handler_calls (process_lines st (xs @ line # ys))
           = handler_calls (process_lines st xs)
             @ handler_calls (process_lines (end_state st xs) ys)
         \<and> handler_calls (askQuestionStream
            (Response True status
              (Some (map Value pre @ Value (a @ line @ NL # b) # map Value later @ [Done]))))
           = concat (map (\<lambda>r. handler_calls (decode_read r)) pre)
             @ handler_calls (decode_read (a @ b))
             @ concat (map (\<lambda>r. handler_calls (decode_read r)) later)
         \<and> handler_calls (askQuestionStream
            (Response True status
              (Some (map Value pre @ Value (a @ line @ NL # b) # map Value later
                      @ [Rejected e]))))
           = concat (map (\<lambda>r. handler_calls (decode_read r)) pre)
             @ handler_calls (decode_read (a @ b))
             @ concat (map (\<lambda>r. handler_calls (decode_read r)) later)
             @ catch_block e"
proof -
  have 1: "handler_calls (askQuestionStream
            (Response True status (Some (map Value pre @ Value x # post))))
        = handler_calls (concat (map decode_read pre)) @ handler_calls (decode_read x)
          @ handler_calls (fst (read_loop post)
              @ (case snd (read_loop post) of Throw e \<Rightarrow> catch_block e | _ \<Rightarrow> []))" for x post
    by (simp add: askQuestionStream_body read_loop_values handler_calls_append
          split: prod.splits)
  have 2: "handler_calls (process_lines st (xs @ line # ys))
           = handler_calls (process_lines st xs)
             @ handler_calls (process_lines (end_state st xs) ys)"
    using handler_calls_process_lines_skip [OF assms(2,3), of st xs ys]
    by (simp add: process_lines_append handler_calls_append)
  have l: "read_loop (map Value later @ [fin])
           = (concat (map decode_read later) @ fst (read_loop [fin]), snd (read_loop [fin]))" for fin
    by (rule read_loop_values)
  have 3: "handler_calls (askQuestionStream
            (Response True status
              (Some (map Value pre @ Value (a @ line @ NL # b) # map Value later @ [Done]))))
           = concat (map (\<lambda>r. handler_calls (decode_read r)) pre)
             @ handler_calls (decode_read (a @ b))
             @ concat (map (\<lambda>r. handler_calls (decode_read r)) later)"
    using decode_read_skip [OF assms]
    by (simp add: 1 l handler_calls_append handler_calls_concat comp_def)
  have 4: "handler_calls (askQuestionStream
            (Response True status
              (Some (map Value pre @ Value (a @ line @ NL # b) # map Value later
                      @ [Rejected e]))))
           = concat (map (\<lambda>r. handler_calls (decode_read r)) pre)
             @ handler_calls (decode_read (a @ b))
             @ concat (map (\<lambda>r. handler_calls (decode_read r)) later)
             @ catch_block e"
    using decode_read_skip [OF assms]
    by (simp add: 1 l handler_calls_append handler_calls_concat handler_calls_catch_block
          comp_def)
  have 5: "handler_calls (askQuestionStream
            (Response True status (Some (map Value pre @ Value (a @ line @ NL # b) # post))))
         = handler_calls (askQuestionStream
            (Response True status (Some (map Value pre @ Value (a @ b) # post))))"
    using decode_read_skip [OF assms] by (simp add: 1)
  show ?thesis
    using 2 3 4 5 process_line_unparseable [OF assms(2,3), of ev d] by (intro conjI)
qed

lemma broken_line_no_nl: "NL \<notin> set broken_line"
  by code_simp

lemma broken_line_data: "startsWith broken_line ''data: ''"
  by code_simp

lemma broken_line_unparseable: "JSON_parse (trim (drop 6 broken_line)) = Inl SyntaxError"
  by code_simp

lemma event_line_ends: "endsWith (event_line ''answer_chunk'') [NL]"
  by code_simp

lemma broken_line_logged:
  "trim (drop 6 broken_line) = broken_payload \<and> broken_payload \<noteq> []"
  by code_simp

lemma around_broken_decoded:
  "concat (map (\<lambda>r. handler_calls (decode_read r))
      [event_line ''answer_chunk'' @ data_line chunk_hi])
     = [OnChunk (Some (JStr ''Hi''))]
   \<and> handler_calls (decode_read (event_line ''answer_chunk''
        @ NL # event_line ''answer_chunk'' @ data_line chunk_there))
     = [OnChunk (Some (JStr '' there''))]
   \<and> concat (map (\<lambda>r. handler_calls (decode_read r))
      [event_line ''answer_complete'' @ data_line complete_payload])
     = [OnComplete (Some (JArr [])) (Some (JStr ''s1''))]"
  by code_simp

theorem malformed_payload_skipped_witness:
  "NL \<notin> set broken_line \<and> startsWith broken_line ''data: ''
   \<and> JSON_parse (trim (drop 6 broken_line)) = Inl SyntaxError
   \<and> endsWith (event_line ''answer_chunk'') [NL]
   \<and> handler_calls (askQuestionStream (Response True 200 (Some
        [Value (event_line ''answer_chunk'' @ data_line chunk_hi),
         Value (event_line ''answer_chunk'' @ broken_line
                @ NL # NL # event_line ''answer_chunk'' @ data_line chunk_there),
         Value (event_line ''answer_complete'' @ data_line complete_payload),
         Done])))
     = [OnChunk (Some (JStr ''Hi'')), OnChunk (Some (JStr '' there'')),
        OnComplete (Some (JArr [])) (Some (JStr ''s1''))]
   \<and> handler_calls (askQuestionStream (Response True 200 (Some
        [Value (event_line ''answer_chunk'' @ data_line chunk_hi),
         Value (event_line ''answer_chunk'' @ broken_line
                @ NL # NL # event_line ''answer_chunk'' @ data_line chunk_there),
         Value (event_line ''answer_complete'' @ data_line complete_payload),
         Rejected (ErrorObj ''TypeError'' ''network error'')])))
     = [OnChunk (Some (JStr ''Hi'')), OnChunk (Some (JStr '' there'')),
        OnComplete (Some (JArr [])) (Some (JStr ''s1'')),
        OnError (Some (JStr ''network error''))]
   \<and> process_line (''answer_chunk'', []) broken_line
     = ((''answer_chunk'', broken_payload), [ConsoleError])"
proof -
  have e: "event_line ''answer_chunk'' = [] \<or> endsWith (event_line ''answer_chunk'') [NL]"
    using event_line_ends by simp
  note w = malformed_payload_skipped [OF broken_line_no_nl broken_line_data
      broken_line_unparseable e,
      where status = 200
        and pre = "[event_line ''answer_chunk'' @ data_line chunk_hi]"
        and b = "NL # event_line ''answer_chunk'' @ data_line chunk_there"
        and later = "[event_line ''answer_complete'' @ data_line complete_payload]"
        and e = "ErrorObj ''TypeError'' ''network error''"
        and ev = "''answer_chunk''" and d = "[]"
        and post = "[Done]" and st = "([], [])" and xs = "[]" and ys = "[]"]
  have c: "catch_block (ErrorObj ''TypeError'' ''network error'')
           = [OnError (Some (JStr ''network error''))]"
    by (simp add: catch_block_def)
  have 1: "handler_calls (askQuestionStream (Response True 200 (Some
        [Value (event_line ''answer_chunk'' @ data_line chunk_hi),
         Value (event_line ''answer_chunk'' @ broken_line
                @ NL # NL # event_line ''answer_chunk'' @ data_line chunk_there),
         Value (event_line ''answer_complete'' @ data_line complete_payload),
         Done])))
     = [OnChunk (Some (JStr ''Hi'')), OnChunk (Some (JStr '' there'')),
        OnComplete (Some (JArr [])) (Some (JStr ''s1''))]"
    using w around_broken_decoded by simp
  have 2: "handler_calls (askQuestionStream (Response True 200 (Some
        [Value (event_line ''answer_chunk'' @ data_line chunk_hi),
         Value (event_line ''answer_chunk'' @ broken_line
                @ NL # NL # event_line ''answer_chunk'' @ data_line chunk_there),
         Value (event_line ''answer_complete'' @ data_line complete_payload),
         Rejected (ErrorObj ''TypeError'' ''network error'')])))
     = [OnChunk (Some (JStr ''Hi'')), OnChunk (Some (JStr '' there'')),
        OnComplete (Some (JArr [])) (Some (JStr ''s1'')),
        OnError (Some (JStr ''network error''))]"
    using w around_broken_decoded c by simp
  have 3: "process_line (''answer_chunk'', []) broken_line
     = ((''answer_chunk'', broken_payload), [ConsoleError])"
    using w broken_line_logged by simp
  show ?thesis
    using broken_line_no_nl broken_line_data broken_line_unparseable event_line_ends 1 2 3
    by (intro conjI)
qed

subsection \<open>Abort\<close>

text \<open>
  Claim C5. When the request is aborted mid-stream, the pending read rejects with an
  \<open>AbortError\<close>: the chunks delivered are those of the reads before the abort and no
  other, nothing the body would have carried afterwards (chunk, complete or error event)
  reaches a handler, and the decoder makes one last call, \<open>onError('Request cancelled')\<close>,
  which comes from its \<open>catch\<close> and not from the stream. An abort before the response
  gives that call alone. The delay is counted in reads: none is decoded after the abort.
  Stop aborts the controller whose signal the request in flight was given.
\<close>

theorem abort_stops_delivery:
  "askQuestionStream (Response True status
      (Some (map Value rs @ Rejected (ErrorObj ''AbortError'' m) # later)))
     = concat (map decode_read rs) @ [OnError (Some (JStr ''Request cancelled''))]
   \<and> filter is_chunk (askQuestionStream (Response True status
        (Some (map Value rs @ Rejected (ErrorObj ''AbortError'' m) # later))))
     = filter is_chunk (concat (map decode_read rs))
   \<and> askQuestionStream (FetchRejected (ErrorObj ''AbortError'' m))
     = [OnError (Some (JStr ''Request cancelled''))]
   \<and> abortController (fst (handleStreamingResponse snap q env s)) = Some (controller env)
   \<and> (abortController snap = Some c \<longrightarrow> c \<in> aborted (handleStopGeneration snap s))"
proof -
  have "askQuestionStream (FetchRejected (ErrorObj ''AbortError'' m))
     = [OnError (Some (JStr ''Request cancelled''))]"
    by (simp add: askQuestionStream_def catch_block_def)
  then show ?thesis
    by (simp add: askQuestionStream_rejected catch_block_def handleStreamingResponse_def
          handleStopGeneration_def)
qed

theorem abort_stops_delivery_witness:
  "askQuestionStream (Response True 200 (Some aborted_body))
     = [OnChunk (Some (JStr ''Hi'')), OnError (Some (JStr ''Request cancelled''))]
   \<and> abortController streaming_page = Some ''c1''
   \<and> ''c1'' \<in> aborted (handleStopGeneration streaming_page streaming_page)"
proof -
  have b: "aborted_body = map Value [event_line ''answer_chunk'' @ data_line chunk_hi]
      @ Rejected (ErrorObj ''AbortError'' ''The user aborted a request.'')
      # [Value (event_line ''answer_chunk'' @ data_line chunk_there
            @ event_line ''answer_complete'' @ data_line complete_payload), Done]"
    by (simp add: aborted_body_def)
  have d: "decode_read (event_line ''answer_chunk'' @ data_line chunk_hi)
           = [OnChunk (Some (JStr ''Hi''))]"
    by code_simp
  show ?thesis
    unfolding b
    using abort_stops_delivery [of 200 "[event_line ''answer_chunk'' @ data_line chunk_hi]"
        "''The user aborted a request.''" _ streaming_page _ _ streaming_page "''c1''"]
      d streaming_page_controller
    by simp
qed

subsection \<open>Dispatch on truthy payloads\<close>

lemma dispatch_truthy: "dispatch ev data = Inr out \<Longrightarrow> list_all truthy_payload out"
  unfolding dispatch_def and_prop_def then_do_def
  by (auto split: sum.splits if_splits)

lemma try_parse_truthy: "list_all truthy_payload (try_parse ev d)"
  unfolding try_parse_def then_do_def
  by (auto split: sum.splits dest: dispatch_truthy)

lemma process_line_truthy: "list_all truthy_payload (snd (process_line st l))"
  unfolding process_line_def Let_def
  by (auto split: prod.splits simp: try_parse_truthy)

lemma process_lines_truthy: "list_all truthy_payload (process_lines st ls)"
proof (induction ls arbitrary: st)
  case Nil
  show ?case by simp
next
  case (Cons l ls)
  obtain st' out where p: "process_line st l = (st', out)" by (metis surj_pair)
  then show ?case using process_line_truthy [of st l] Cons.IH [of st'] by simp
qed

lemma read_loop_truthy: "list_all truthy_payload (fst (read_loop rs))"
  by (induction rs rule: read_loop.induct)
     (auto split: prod.splits simp: decode_read_def process_lines_truthy)

lemma catch_block_truthy: "list_all truthy_payload (catch_block e)"
  using catch_block_single [of e] by auto


text \<open>
  Claim C10. The decoder dispatches on truthy payload fields only: every \<open>onChunk\<close> it
  makes has a truthy chunk and every \<open>onComplete\<close> has a \<open>sources\<close> that is present and
  truthy; an \<open>answer_chunk\<close> event whose chunk is the empty string calls no handler and
  logs nothing, and an \<open>answer_complete\<close> event whose sources is the empty array is
  delivered.
\<close>

theorem dispatch_only_truthy:
  "(OnChunk c \<in> set (askQuestionStream r) \<longrightarrow> truthy_opt c)
   \<and> (OnComplete srcs sid \<in> set (askQuestionStream r) \<longrightarrow> truthy_opt srcs \<and> srcs \<noteq> None)
   \<and> (JSON_parse d = Inr (JObj kvs) \<and> map_of (rev kvs) ''chunk'' = Some (JStr [])
        \<longrightarrow> try_parse ''answer_chunk'' d = [])
   \<and> (JSON_parse d = Inr (JObj kvs) \<and> map_of (rev kvs) ''sources'' = Some (JArr [])
        \<longrightarrow> try_parse ''answer_complete'' d
            = [OnComplete (Some (JArr [])) (map_of (rev kvs) ''session_id'')])"
proof -
  have "list_all truthy_payload (askQuestionStream r)"
  proof (cases r)
    case (FetchRejected e)
    then show ?thesis by (simp add: askQuestionStream_def catch_block_truthy)
  next
    case (Response ok status body)
    show ?thesis
    proof (cases "ok \<and> body \<noteq> None")
      case True
      then obtain rs where "r = Response True status (Some rs)"
        using Response by auto
      then show ?thesis
        using read_loop_truthy [of rs] catch_block_truthy
        by (simp add: askQuestionStream_body split: loop_exit.splits)
    next
      case False
      then show ?thesis
        using Response catch_block_truthy by (auto simp: askQuestionStream_def)
    qed
  qed
  then have a: "\<forall>e\<in>set (askQuestionStream r). truthy_payload e"
    by (simp add: list_all_iff)
  have c: "OnChunk c \<in> set (askQuestionStream r) \<longrightarrow> truthy_opt c"
    using a by fastforce
  have s: "OnComplete srcs sid \<in> set (askQuestionStream r) \<longrightarrow> truthy_opt srcs \<and> srcs \<noteq> None"
  proof
    assume "OnComplete srcs sid \<in> set (askQuestionStream r)"
    then have "truthy_payload (OnComplete srcs sid)" using a by blast
    then show "truthy_opt srcs \<and> srcs \<noteq> None" by (cases srcs) simp_all
  qed
  have e: "JSON_parse d = Inr (JObj kvs) \<and> map_of (rev kvs) ''chunk'' = Some (JStr [])
        \<longrightarrow> try_parse ''answer_chunk'' d = []"
    by (simp add: try_parse_def then_do_def dispatch_def and_prop_def)
  have f: "JSON_parse d = Inr (JObj kvs) \<and> map_of (rev kvs) ''sources'' = Some (JArr [])
        \<longrightarrow> try_parse ''answer_complete'' d
            = [OnComplete (Some (JArr [])) (map_of (rev kvs) ''session_id'')]"
    by (simp add: try_parse_def then_do_def dispatch_def and_prop_def)
  show ?thesis using c s e f by blast
qed

lemma sample_has_chunk:
  "OnChunk (Some (JStr ''Hi'')) \<in> set (askQuestionStream (Response True 200 (Some sample_body)))"
  by code_simp

lemma sample_has_complete:
  "OnComplete (Some (JArr [])) (Some (JStr ''s1''))
     \<in> set (askQuestionStream (Response True 200 (Some sample_body)))"
  by code_simp

lemma chunk_empty_parse:
  "JSON_parse chunk_empty = Inr (JObj [(''chunk'', JStr [])])
   \<and> map_of (rev [(''chunk'', JStr [])]) ''chunk'' = Some (JStr [])"
  by code_simp

lemma complete_payload_parse:
  "JSON_parse complete_payload = Inr (JObj [(''sources'', JArr []), (''session_id'', JStr ''s1'')])
   \<and> map_of (rev [(''sources'', JArr []), (''session_id'', JStr ''s1'')]) ''sources''
       = Some (JArr [])"
  by code_simp

theorem dispatch_only_truthy_witness:
  "OnChunk (Some (JStr ''Hi'')) \<in> set (askQuestionStream (Response True 200 (Some sample_body)))
   \<and> truthy_opt (Some (JStr ''Hi''))
   \<and> OnComplete (Some (JArr [])) (Some (JStr ''s1''))
       \<in> set (askQuestionStream (Response True 200 (Some sample_body)))
   \<and> truthy_opt (Some (JArr []))
   \<and> JSON_parse chunk_empty = Inr (JObj [(''chunk'', JStr [])])
   \<and> try_parse ''answer_chunk'' chunk_empty = []
   \<and> decode_read (event_line ''answer_chunk'' @ data_line chunk_empty) = []
   \<and> JSON_parse complete_payload
       = Inr (JObj [(''sources'', JArr []), (''session_id'', JStr ''s1'')])
   \<and> try_parse ''answer_complete'' complete_payload
       = [OnComplete (Some (JArr [])) (Some (JStr ''s1''))]"
proof -
  note w1 = dispatch_only_truthy [of "Some (JStr ''Hi'')"
      "Response True 200 (Some sample_body)" "Some (JArr [])" "Some (JStr ''s1'')"
      chunk_empty "[(''chunk'', JStr [])]"]
  note w2 = dispatch_only_truthy [of "Some (JStr ''Hi'')"
      "Response True 200 (Some sample_body)" "Some (JArr [])" "Some (JStr ''s1'')"
      complete_payload "[(''sources'', JArr []), (''session_id'', JStr ''s1'')]"]
  have t: "try_parse ''answer_chunk'' chunk_empty = []"
    using w1 chunk_empty_parse by blast
  have u: "try_parse ''answer_complete'' complete_payload
       = [OnComplete (Some (JArr []))
            (map_of (rev [(''sources'', JArr []), (''session_id'', JStr ''s1'')]) ''session_id'')]"
    using w2 complete_payload_parse by blast
  have d: "decode_read (event_line ''answer_chunk'' @ data_line chunk_empty) = []"
    by code_simp
  show ?thesis
    using sample_has_chunk sample_has_complete chunk_empty_parse complete_payload_parse t u d
    by simp
qed

subsection \<open>Requests in flight\<close>

lemma in_flight_inv_length: "in_flight_inv st \<Longrightarrow> length (snd st) \<le> 1"
  by (auto simp: in_flight_inv_def split: list.splits)

lemma in_flight_inv_streaming: "in_flight_inv st \<Longrightarrow> snd st \<noteq> [] \<Longrightarrow> isStreaming (fst st)"
  by (auto simp: in_flight_inv_def split: list.splits)

lemma submit_refused: "isStreaming s \<Longrightarrow> step (Submit text env) (s, fl) = (s, fl)"
  by (simp add: handleSubmit_def)

lemma step_keeps_inv:
  assumes "in_flight_inv st"
      and "case e of Call tid c \<Rightarrow> is_terminal_call c \<longrightarrow> list_all (\<lambda>r. snd r = tid) (snd st)
           | _ \<Rightarrow> True"
  shows "in_flight_inv (step e st)"
proof -
  obtain s fl where st: "st = (s, fl)" by (metis surj_pair)
  show ?thesis
  proof (cases e)
    case (Submit input env)
    show ?thesis
    proof (cases "isStreaming s")
      case True
      then show ?thesis using assms(1) st Submit by (simp add: handleSubmit_def)
    next
      case False
      then have "fl = []"
        using assms(1) st by (auto simp: in_flight_inv_def split: list.splits)
      then show ?thesis
        using st Submit
        by (simp add: in_flight_inv_def handleSubmit_def handleSendMessage_def
              handleStreamingResponse_def)
    qed
  next
    case Stop
    show ?thesis
    proof (cases "isStreaming s")
      case True
      then show ?thesis
        using assms(1) st Stop
        by (auto simp: in_flight_inv_def split: list.splits option.splits)
    next
      case False
      then show ?thesis using assms(1) st Stop by simp
    qed
  next
    case (Call tid c)
    show ?thesis
    proof (cases "is_terminal_call c")
      case True
      then have "filter (\<lambda>r. snd r \<noteq> tid) fl = []"
        using assms(2) st Call by (auto simp: list_all_iff filter_empty_conv)
      then show ?thesis using st Call True by (simp add: in_flight_inv_def)
    next
      case False
      then obtain x where c: "c = Chunk x" by (cases c) auto
      then show ?thesis
        using assms(1) st Call
        by (auto simp: in_flight_inv_def onChunk_def split: list.splits)
    qed
  qed
qed

lemma run_keeps_inv:
  "in_flight_inv st \<Longrightarrow> no_stale_terminal es st \<Longrightarrow> in_flight_inv (run es st)"
proof (induction es arbitrary: st)
  case Nil
  then show ?case by (simp add: run_def)
next
  case (Cons e es)
  have "in_flight_inv (step e st)"
    using step_keeps_inv [OF Cons.prems(1)] Cons.prems(2) by simp
  then have "in_flight_inv (run es (step e st))"
    using Cons.IH Cons.prems(2) by simp
  then show ?case by (simp add: run_def)
qed

lemma no_stale_terminal_take:
  "no_stale_terminal es st \<Longrightarrow> no_stale_terminal (take n es) st"
proof (induction es arbitrary: n st)
  case Nil
  then show ?case by simp
next
  case (Cons e es)
  then show ?case by (cases n) auto
qed

lemma initial_inv: "in_flight_inv initial"
  by (simp add: in_flight_inv_def initial_def)

text \<open>
  Claim C9, as amended. A request starts only while \<open>isStreaming\<close> is false (while it is
  true the submit handler refuses to send) and starting sets it to true; \<open>isStreaming\<close> is
  reset to false by Stop and by the \<open>onComplete\<close> and \<open>onError\<close> of any request, those
  of an earlier request included. So at most one request is in flight at any time of every
  run in which no request calls \<open>onComplete\<close> or \<open>onError\<close> while another request is in
  flight, and while one is in flight the page is streaming.
\<close>

theorem one_request_in_flight:
  assumes "no_stale_terminal es initial"
  shows "length (snd (run (take n es) initial)) \<le> 1
         \<and> (snd (run (take n es) initial) \<noteq> [] \<longrightarrow> isStreaming (fst (run (take n es) initial)))
         \<and> (isStreaming s \<longrightarrow> step (Submit text env) (s, fl) = (s, fl))
         \<and> \<not> isStreaming (onComplete tid srcs sid s)
         \<and> \<not> isStreaming (onError tid err s)
         \<and> (abortController snap \<noteq> None \<longrightarrow> \<not> isStreaming (handleStopGeneration snap s))"
proof -
  have "in_flight_inv (run (take n es) initial)"
    using run_keeps_inv [OF initial_inv no_stale_terminal_take [OF assms]] .
  then show ?thesis
    using in_flight_inv_length in_flight_inv_streaming submit_refused
    by (auto simp: onComplete_def onError_def Let_def handleStopGeneration_def)
qed

lemma calm_run_no_stale: "no_stale_terminal calm_run initial"
  by code_simp

theorem one_request_in_flight_witness:
  "no_stale_terminal calm_run initial
   \<and> length (snd (run (take 5 calm_run) initial)) \<le> 1
   \<and> snd (run (take 4 calm_run) initial) = [(''c2'', ''a2'')]
   \<and> isStreaming (fst (run (take 4 calm_run) initial))
   \<and> isStreaming streaming_page
   \<and> step (Submit ''b'' fresh2) (streaming_page, [(''c1'', ''a1'')])
       = (streaming_page, [(''c1'', ''a1'')])
   \<and> abortController streaming_page \<noteq> None
   \<and> \<not> isStreaming (handleStopGeneration streaming_page streaming_page)"
proof -
  note w5 = one_request_in_flight [OF calm_run_no_stale, of 5 streaming_page "''b''" fresh2
      "[(''c1'', ''a1'')]" "''a1''" None None "''x''" streaming_page]
  note w4 = one_request_in_flight [OF calm_run_no_stale, of 4 streaming_page "''b''" fresh2
      "[(''c1'', ''a1'')]" "''a1''" None None "''x''" streaming_page]
  have a: "snd (run (take 4 calm_run) initial) = [(''c2'', ''a2'')]"
    by code_simp
  have b: "isStreaming streaming_page"
    by code_simp
  have c: "abortController streaming_page \<noteq> None"
    by code_simp
  show ?thesis
    using calm_run_no_stale w5 w4 a b c by simp
qed

text \<open>
  Claim C9 as stated fails. The first request is completed and the second is started;
  then the body of the first breaks, its \<open>onError\<close> resets \<open>isStreaming\<close>, and a third
  request starts while the second, which has reached no terminal state, is still in flight.
  One \<open>askQuestionStream\<close> makes both calls of the first request, on a body that carries
  the complete event and then fails.
\<close>

theorem stale_terminal_frees_input:
  "snd (run stale_run initial) = [(''c2'', ''a2''), (''c3'', ''a3'')]
   \<and> \<not> length (snd (run stale_run initial)) \<le> 1
   \<and> typed_calls (askQuestionStream (Response True 200 (Some broken_body)))
       = Some [Complete (Some (JArr [])) (Some (JStr ''s1'')), Failed ''network error'']"
  by code_simp

end
